theory Spec2Isabelle
  imports Main "HOL-Library.Word" "HOL-Library.Multiset"
begin

unbundle bit_operations_syntax

section \<open>Data model of source-netmap.c\<close>

text \<open>
  Pointers are addresses (\<open>nat\<close>) into explicit heaps kept in the \<open>world\<close> record; a
  nullable pointer is an \<open>option\<close>.  Undefined behaviour of the C code (a NULL or dangling
  dereference, an array index out of range, a division by zero) is the result \<open>None\<close> of the
  function that would perform it.
\<close>

type_synonym ptr = nat

datatype TmEcode = TM_ECODE_OK | TM_ECODE_FAILED | TM_ECODE_DONE

datatype netmap_rc = NETMAP_OK | NETMAP_FAILURE

datatype copy_mode_t = NETMAP_COPY_MODE_NONE | NETMAP_COPY_MODE_TAP | NETMAP_COPY_MODE_IPS

datatype ChecksumValidationMode =
  CHECKSUM_VALIDATION_DISABLE | CHECKSUM_VALIDATION_ENABLE | CHECKSUM_VALIDATION_AUTO

text \<open>The kernel's \<open>struct netmap_slot\<close> and \<open>struct netmap_ring\<close>, restricted to the
  fields the capture source reads or writes.\<close>

record netmap_slot =
  buf_idx :: "32 word"
  len :: "16 word"
  flags :: "16 word"

record netmap_ring =
  num_slots :: "32 word"
  head :: "32 word"
  cur :: "32 word"
  tail :: "32 word"
  slot :: "netmap_slot list"

text \<open>\<open>NetmapRing\<close> (lines 150-156): the RX and the TX ring of one hardware ring pair are
  two distinct kernel objects, here two fields.  \<open>tx_lock\<close> is omitted: the model is
  sequential.\<close>

record NetmapRing =
  fd :: int
  rx :: netmap_ring
  tx :: netmap_ring

text \<open>\<open>NetmapDevice\<close> (lines 161-172). \<open>mem\<close> is \<open>None\<close> for NULL.\<close>

record NetmapDevice =
  ifname :: string
  mem :: "ptr option"
  memsize :: nat
  rings_cnt :: int
  rings :: "NetmapRing list"
  ref :: "32 word"
  threads_run :: "32 word"

text \<open>\<open>NetmapThreadVars\<close> (lines 177-207).\<close>

record NetmapThreadVars =
  ifsrc :: "ptr option"
  ifdst :: "ptr option"
  ring_from :: int
  ring_to :: int
  thread_idx :: int
  ntv_flags :: int
  bpf_len :: nat
  tv :: ptr
  livedev :: ptr
  copy_mode :: copy_mode_t
  checksum_mode :: ChecksumValidationMode
  pkts :: "64 word"
  bytes :: "64 word"
  drops :: "64 word"
  capture_kernel_packets :: "16 word"
  capture_kernel_drops :: "16 word"

text \<open>The part of \<open>LiveDevice\<close> (util-device.h) that this file touches.\<close>

record LiveDevice =
  ld_pkts :: "64 word"
  ld_drop :: "64 word"
  ld_invalid_checksums :: "64 word"
  ignore_checksum :: bool

datatype release_hook = PacketFreeOrRelease_hook | NetmapReleasePacket_hook

text \<open>The part of \<open>Packet\<close> (decode.h) that this file touches.  \<open>test_action_drop\<close> is the
  value of \<open>PACKET_TEST_ACTION(p, ACTION_DROP)\<close> and \<open>is_pseudopkt\<close> the value of
  \<open>PKT_IS_PSEUDOPKT(p)\<close>; both macros live in decode.h.\<close>

record Packet =
  netmap_v_ring_id :: int
  netmap_v_slot_id :: int
  netmap_v_ntv :: ptr
  ReleasePacket :: release_hook
  ignore_checksum_flag :: bool
  test_action_drop :: bool
  is_pseudopkt :: bool

text \<open>The global state: the heaps of devices, thread variables and live devices, the
  registry \<open>netmap_devlist\<close> (a TAILQ of device pointers), the per-thread statistics
  counters, the kernel resources held by the process (open file descriptors, mapped
  regions), and the packets handed back to the packet pool.  \<open>next_fd\<close> and \<open>next_ptr\<close>
  are the descriptor and the address that the next \<open>open\<close>/\<open>socket\<close> and the next
  \<open>SCMalloc\<close>/\<open>mmap\<close> return: handles are never reused, so a stale handle stays
  distinguishable from a live one.\<close>

record world =
  devs :: "ptr \<rightharpoonup> NetmapDevice"
  netmap_devlist :: "ptr list"
  ntvs :: "ptr \<rightharpoonup> NetmapThreadVars"
  livedevs :: "ptr \<rightharpoonup> LiveDevice"
  stats :: "ptr \<Rightarrow> 16 word \<Rightarrow> 64 word"
  open_fds :: "int list"
  next_fd :: int
  mapped :: "ptr list"
  next_ptr :: ptr
  pool :: "Packet list"

section \<open>Ring helpers of net/netmap_user.h\<close>

definition NS_BUF_CHANGED :: "16 word" where
  \<comment> \<open>Modelled from the spec: the slot flag \<open>BUF_CHANGED\<close> of net/netmap.h, a header that
     is not part of this repository; its value there is 0x0001.\<close>
  "NS_BUF_CHANGED = 1"

definition nm_ring_space :: "netmap_ring \<Rightarrow> 32 word" where
  \<comment> \<open>Modelled from the spec: \<open>nm_ring_space\<close> of net/netmap_user.h, not part of this
     repository: \<open>tail - cur\<close> as a modular slot count (a negative difference is
     corrected by \<open>num_slots\<close>).\<close>
  "nm_ring_space ring =
     (let ret = tail ring - cur ring
      in if sint ret < 0 then ret + num_slots ring else ret)"

definition nm_ring_next :: "netmap_ring \<Rightarrow> 32 word \<Rightarrow> 32 word" where
  \<comment> \<open>Modelled from the spec: \<open>nm_ring_next\<close> of net/netmap_user.h, not part of this
     repository: the circular successor of a slot index.\<close>
  "nm_ring_next r i = (if i + 1 = num_slots r then 0 else i + 1)"

definition c_rem :: "int \<Rightarrow> int \<Rightarrow> int" where
  \<comment> \<open>C's \<open>%\<close> on \<open>int\<close>: the remainder of the division that truncates towards zero.\<close>
  "c_rem a b = sgn a * (\<bar>a\<bar> mod \<bar>b\<bar>)"

definition c_div :: "int \<Rightarrow> int \<Rightarrow> int" where
  \<comment> \<open>C's \<open>/\<close> on \<open>int\<close>: truncation towards zero.\<close>
  "c_div a b = sgn a * sgn b * (\<bar>a\<bar> div \<bar>b\<bar>)"

section \<open>Heap access\<close>

definition get_ring :: "NetmapDevice \<Rightarrow> int \<Rightarrow> NetmapRing option" where
  \<comment> \<open>\<open>&dev->rings[i]\<close>, dereferenced\<close>
  "get_ring dev i = (if 0 \<le> i \<and> nat i < length (rings dev) then Some (rings dev ! nat i) else None)"

definition get_slot :: "netmap_ring \<Rightarrow> int \<Rightarrow> netmap_slot option" where
  \<comment> \<open>\<open>&ring->slot[i]\<close>, dereferenced\<close>
  "get_slot r i = (if 0 \<le> i \<and> nat i < length (slot r) then Some (slot r ! nat i) else None)"

definition get_rx :: "world \<Rightarrow> ptr \<Rightarrow> int \<Rightarrow> netmap_ring option" where
  \<comment> \<open>the RX ring \<open>dev->rings[i].rx\<close> of the device at address \<open>d\<close>\<close>
  "get_rx w d i = (case devs w d of None \<Rightarrow> None | Some dev \<Rightarrow> map_option rx (get_ring dev i))"

definition get_tx :: "world \<Rightarrow> ptr \<Rightarrow> int \<Rightarrow> netmap_ring option" where
  \<comment> \<open>the TX ring \<open>dev->rings[i].tx\<close> of the device at address \<open>d\<close>\<close>
  "get_tx w d i = (case devs w d of None \<Rightarrow> None | Some dev \<Rightarrow> map_option tx (get_ring dev i))"

definition write_rx :: "ptr \<Rightarrow> int \<Rightarrow> (netmap_ring \<Rightarrow> netmap_ring) \<Rightarrow> world \<Rightarrow> world" where
  \<comment> \<open>a write through the pointer \<open>dev->rings[i].rx\<close>\<close>
  "write_rx d i f w =
     (case devs w d of None \<Rightarrow> w
      | Some dev \<Rightarrow>
          (case get_ring dev i of None \<Rightarrow> w
           | Some r \<Rightarrow> w\<lparr>devs := (devs w)(d \<mapsto> dev\<lparr>rings := (rings dev)[nat i := r\<lparr>rx := f (rx r)\<rparr>]\<rparr>)\<rparr>))"

definition write_tx :: "ptr \<Rightarrow> int \<Rightarrow> (netmap_ring \<Rightarrow> netmap_ring) \<Rightarrow> world \<Rightarrow> world" where
  \<comment> \<open>a write through the pointer \<open>dev->rings[i].tx\<close>\<close>
  "write_tx d i f w =
     (case devs w d of None \<Rightarrow> w
      | Some dev \<Rightarrow>
          (case get_ring dev i of None \<Rightarrow> w
           | Some r \<Rightarrow> w\<lparr>devs := (devs w)(d \<mapsto> dev\<lparr>rings := (rings dev)[nat i := r\<lparr>tx := f (tx r)\<rparr>]\<rparr>)\<rparr>))"

section \<open>IPS forwarding path\<close>

definition PacketFreeOrRelease :: "Packet \<Rightarrow> world \<Rightarrow> world" where
  \<comment> \<open>Modelled from the spec: \<open>PacketFreeOrRelease\<close> of decode.c, which is not under src/
     (section 4.4, step 5: return the packet descriptor to its pool).\<close>
  "PacketFreeOrRelease p w = w\<lparr>pool := pool w @ [p]\<rparr>"

definition NetmapWritePacket :: "ptr \<Rightarrow> Packet \<Rightarrow> world \<Rightarrow> (TmEcode \<times> world) option" where
  \<comment> \<open>lines 606-646\<close>
  "NetmapWritePacket t p w =
     (case ntvs w t of None \<Rightarrow> None
      | Some ntv \<Rightarrow>
          if copy_mode ntv = NETMAP_COPY_MODE_IPS \<and> test_action_drop p then Some (TM_ECODE_OK, w)
          else
            (case (ifdst ntv, ifsrc ntv) of
               (Some dp, Some sp) \<Rightarrow>
                 (case (devs w dp, devs w sp) of
                    (Some dst, Some src) \<Rightarrow>
                      if rings_cnt dst = 0 then None
                      else
                        let dst_ring_id = c_rem (netmap_v_ring_id p) (rings_cnt dst) in
                        (case get_tx w dp dst_ring_id of None \<Rightarrow> None
                         | Some txr \<Rightarrow>
                             if nm_ring_space txr = 0
                             then Some (TM_ECODE_FAILED,
                                        w\<lparr>ntvs := (ntvs w)(t \<mapsto> ntv\<lparr>drops := drops ntv + 1\<rparr>)\<rparr>)
                             else
                               (case get_rx w sp (netmap_v_ring_id p) of None \<Rightarrow> None
                                | Some rxr \<Rightarrow>
                                   (case (get_slot rxr (netmap_v_slot_id p), get_slot txr (uint (cur txr))) of
                                      (Some rs, Some ts) \<Rightarrow>
                                        let ts' = ts\<lparr>buf_idx := buf_idx rs, len := len rs,
                                                      flags := flags ts OR NS_BUF_CHANGED\<rparr>;
                                            rs' = rs\<lparr>buf_idx := buf_idx ts,
                                                      flags := flags rs OR NS_BUF_CHANGED\<rparr>;
                                            nxt = nm_ring_next txr (cur txr);
                                            w1 = write_tx dp dst_ring_id
                                                   (\<lambda>r. r\<lparr>slot := (slot r)[unat (cur txr) := ts'],
                                                           head := nxt, cur := nxt\<rparr>) w;
                                            w2 = write_rx sp (netmap_v_ring_id p)
                                                   (\<lambda>r. r\<lparr>slot := (slot r)[nat (netmap_v_slot_id p) := rs']\<rparr>) w1
                                        in Some (TM_ECODE_OK, w2)
                                    | _ \<Rightarrow> None)))
                  | _ \<Rightarrow> None)
             | _ \<Rightarrow> None))"

definition NetmapReleasePacket :: "Packet \<Rightarrow> world \<Rightarrow> world option" where
  \<comment> \<open>lines 652-663; the result of \<open>NetmapWritePacket\<close> is discarded\<close>
  "NetmapReleasePacket p w =
     (case ntvs w (netmap_v_ntv p) of None \<Rightarrow> None
      | Some ntv \<Rightarrow>
          if copy_mode ntv \<noteq> NETMAP_COPY_MODE_NONE \<and> \<not> is_pseudopkt p
          then (case NetmapWritePacket (netmap_v_ntv p) p w of None \<Rightarrow> None
                | Some (rc, w') \<Rightarrow> Some (PacketFreeOrRelease p w'))
          else Some (PacketFreeOrRelease p w))"

section \<open>Interface control helpers\<close>

text \<open>
  The outcome of every call into the operating system made by one \<open>NetmapOpen\<close> is given
  by an \<open>open_env\<close>: which allocations and system calls succeed, what the interface-flags
  and ring-geometry queries answer, and the rings the kernel exposes in the mapped region.
\<close>

record open_env =
  pdev_alloc_ok :: bool
  ctl_open_ok :: bool
  socket_ok :: bool
  siocgifflags :: "int option"
  niocginfo :: "(16 word \<times> 16 word \<times> nat) option"
  rings_alloc_ok :: bool
  ring_open_ok :: "nat \<Rightarrow> bool"
  niocregif_ok :: "nat \<Rightarrow> bool"
  mmap_ok :: bool
  kernel_rx :: "nat \<Rightarrow> netmap_ring"
  kernel_tx :: "nat \<Rightarrow> netmap_ring"

definition IFF_UP :: int where
  \<comment> \<open>Modelled from the spec: the "administratively UP" interface flag of the system
     header net/if.h, which is not part of this repository.\<close>
  "IFF_UP = 1"

definition IFNAMSIZ :: nat where
  \<comment> \<open>Modelled from the spec: the bound of the "bounded interface identifier string",
     from the system header net/if.h, which is not part of this repository.\<close>
  "IFNAMSIZ = 16"

definition NetmapGetIfaceFlags :: "open_env \<Rightarrow> int" where
  \<comment> \<open>lines 220-240: the interface flags, or -1 when the ioctl fails\<close>
  "NetmapGetIfaceFlags env = (case siocgifflags env of None \<Rightarrow> - 1 | Some f \<Rightarrow> f)"

section \<open>Kernel resources\<close>

definition sys_open :: "world \<Rightarrow> int \<times> world" where
  \<comment> \<open>a successful \<open>open\<close> or \<open>socket\<close>: a fresh descriptor\<close>
  "sys_open w = (next_fd w, w\<lparr>open_fds := open_fds w @ [next_fd w], next_fd := next_fd w + 1\<rparr>)"

definition sys_close :: "int \<Rightarrow> world \<Rightarrow> world" where
  "sys_close f w = w\<lparr>open_fds := removeAll f (open_fds w)\<rparr>"

definition sys_mmap :: "world \<Rightarrow> ptr \<times> world" where
  \<comment> \<open>a successful \<open>mmap\<close>: a fresh region\<close>
  "sys_mmap w = (next_ptr w, w\<lparr>mapped := mapped w @ [next_ptr w], next_ptr := next_ptr w + 1\<rparr>)"

definition sys_munmap :: "ptr option \<Rightarrow> world \<Rightarrow> world" where
  \<comment> \<open>\<open>munmap(NULL, n)\<close> fails and unmaps nothing\<close>
  "sys_munmap m w = (case m of None \<Rightarrow> w | Some a \<Rightarrow> w\<lparr>mapped := removeAll a (mapped w)\<rparr>)"

definition SCFree_dev :: "ptr \<Rightarrow> world \<Rightarrow> world" where
  "SCFree_dev p w = w\<lparr>devs := (devs w)(p := None)\<rparr>"

section \<open>Device registry\<close>

fun find_by_name :: "(ptr \<rightharpoonup> NetmapDevice) \<Rightarrow> string \<Rightarrow> ptr list \<Rightarrow> ptr option option" where
  \<comment> \<open>lines 290-297, the \<open>TAILQ_FOREACH\<close> with \<open>strcmp\<close>: \<open>Some (Some p)\<close> is the first
     device of that name, \<open>Some None\<close> none, and \<open>None\<close> a dangling list entry\<close>
  "find_by_name h n [] = Some None"
| "find_by_name h n (p # ps) =
     (case h p of None \<Rightarrow> None
      | Some d \<Rightarrow> if n = ifname d then Some (Some p) else find_by_name h n ps)"

definition null_ring :: netmap_ring where
  \<comment> \<open>stands for the NULL ring pointers of a zeroed \<open>NetmapRing\<close>\<close>
  "null_ring = \<lparr>num_slots = 0, head = 0, cur = 0, tail = 0, slot = []\<rparr>"

definition zero_NetmapRing :: NetmapRing where
  "zero_NetmapRing = \<lparr>fd = 0, rx = null_ring, tx = null_ring\<rparr>"

definition set_ring_fd :: "nat \<Rightarrow> int \<Rightarrow> NetmapDevice \<Rightarrow> NetmapDevice" where
  \<comment> \<open>\<open>pdev->rings[i].fd = f\<close>\<close>
  "set_ring_fd i f d = d\<lparr>rings := (rings d)[i := (rings d ! i)\<lparr>fd := f\<rparr>]\<rparr>"

definition set_ring_views :: "open_env \<Rightarrow> nat \<Rightarrow> NetmapDevice \<Rightarrow> NetmapDevice" where
  \<comment> \<open>lines 413-414: \<open>pring->rx = NETMAP_RXRING(nif, i); pring->tx = NETMAP_TXRING(nif, i)\<close>\<close>
  "set_ring_views env i d =
     d\<lparr>rings := (rings d)[i := (rings d ! i)\<lparr>rx := kernel_rx env i, tx := kernel_tx env i\<rparr>]\<rparr>"

datatype ring_loop_exit = LoopExit nat | GotoErrorFd

fun open_rings ::
  "open_env \<Rightarrow> nat \<Rightarrow> nat \<Rightarrow> nat \<Rightarrow> NetmapDevice \<Rightarrow> world \<Rightarrow> ring_loop_exit \<times> NetmapDevice \<times> world"
where
  \<comment> \<open>lines 381-417, the loop over the rings: \<open>i\<close> is the ring index, the second number
     counts the rings still to visit, \<open>sc\<close> is \<open>success_cnt\<close>.  The loop ends by its
     condition or by \<open>break\<close> (\<open>LoopExit success_cnt\<close>), or by \<open>goto error_fd\<close>.\<close>
  "open_rings env i 0 sc d w = (LoopExit sc, d, w)"
| "open_rings env i (Suc n) sc d w =
     (if \<not> ring_open_ok env i then (LoopExit sc, set_ring_fd i (- 1) d, w)
      else
        let (f, w1) = sys_open w;
            d1 = set_ring_fd i f d
        in if \<not> niocregif_ok env i then (LoopExit sc, d1, w1)
           else if mem d1 = None \<and> \<not> mmap_ok env then (GotoErrorFd, d1, w1)
           else
             let (d2, w2) = (if mem d1 = None
                             then let (m, w') = sys_mmap w1 in (d1\<lparr>mem := Some m\<rparr>, w')
                             else (d1, w1))
             in open_rings env (Suc i) n (Suc sc) (set_ring_views env i d2) w2)"

definition error_pdev :: "ptr \<Rightarrow> world \<Rightarrow> (int \<times> ptr option) \<times> world" where
  \<comment> \<open>lines 439-443\<close>
  "error_pdev pdev w = ((- 1, None), SCFree_dev pdev w)"

definition error_fd :: "int \<Rightarrow> ptr \<Rightarrow> world \<Rightarrow> (int \<times> ptr option) \<times> world" where
  \<comment> \<open>lines 437-438, falling through to \<open>error_pdev\<close>\<close>
  "error_fd ctl pdev w = error_pdev pdev (sys_close ctl w)"

definition error_mem :: "ptr option \<Rightarrow> int \<Rightarrow> ptr \<Rightarrow> world \<Rightarrow> (int \<times> ptr option) \<times> world" where
  \<comment> \<open>lines 435-436, falling through to \<open>error_fd\<close>\<close>
  "error_mem m ctl pdev w = error_fd ctl pdev (sys_munmap m w)"

definition NetmapOpen_new :: "open_env \<Rightarrow> string \<Rightarrow> bool \<Rightarrow> world \<Rightarrow> (int \<times> ptr option) \<times> world" where
  \<comment> \<open>lines 299-444, a name that is not in the list.  The device under construction is
     the local \<open>d\<close>; it reaches the heap when the open succeeds.  \<open>NetmapSetIfaceFlags\<close>
     (line 346) changes only the kernel's interface flags and its result is ignored, so
     \<open>promisc\<close> has no effect on this state.\<close>
  "NetmapOpen_new env name promisc w =
     (if \<not> pdev_alloc_ok env then ((- 1, None), w)
      else
        let pdev = next_ptr w;
            d0 = \<lparr>ifname = take (IFNAMSIZ - 1) name, mem = None, memsize = 0, rings_cnt = 0,
                  rings = [], ref = 0, threads_run = 0\<rparr>;
            w0 = w\<lparr>devs := (devs w)(pdev \<mapsto> d0), next_ptr := next_ptr w + 1\<rparr>
        in if \<not> ctl_open_ok env then error_pdev pdev w0
           else
             let (ctl, w1) = sys_open w0
             in if \<not> socket_ok env then error_fd ctl pdev w1
                else
                  let (if_fd, w2) = sys_open w1;
                      if_flags = NetmapGetIfaceFlags env
                  in if if_flags = - 1 then error_fd ctl pdev (sys_close if_fd w2)
                     else if if_flags AND IFF_UP = 0 then error_fd ctl pdev (sys_close if_fd w2)
                     else
                       let w3 = sys_close if_fd w2
                       in (case niocginfo env of
                             None \<Rightarrow> error_fd ctl pdev w3
                           | Some (nr_rx_rings, nr_tx_rings, nr_memsize) \<Rightarrow>
                               if nr_rx_rings \<noteq> nr_tx_rings then error_fd ctl pdev w3
                               else if \<not> rings_alloc_ok env then error_fd ctl pdev w3
                               else
                                 let d1 = d0\<lparr>rings_cnt := uint nr_rx_rings, memsize := nr_memsize,
                                             rings := replicate (unat nr_rx_rings) zero_NetmapRing\<rparr>
                                 in (case open_rings env 0 (unat nr_rx_rings) 0 d1 w3 of
                                       (GotoErrorFd, d2, w4) \<Rightarrow> error_fd ctl pdev w4
                                     | (LoopExit success_cnt, d2, w4) \<Rightarrow>
                                         if int success_cnt \<noteq> rings_cnt d2
                                         then error_mem (mem d2) ctl pdev
                                                (fold sys_close (map fd (take success_cnt (rings d2))) w4)
                                         else
                                           let w5 = sys_close ctl w4
                                           in ((0, Some pdev),
                                               w5\<lparr>devs := (devs w5)(pdev \<mapsto> d2),
                                                  netmap_devlist := netmap_devlist w5 @ [pdev]\<rparr>))))"

definition NetmapOpen :: "open_env \<Rightarrow> string \<Rightarrow> bool \<Rightarrow> world \<Rightarrow> ((int \<times> ptr option) \<times> world) option" where
  \<comment> \<open>lines 280-444; the result is the return value with \<open>*pdevice\<close>.  The parameter
     \<open>verbose\<close> selects log messages only and is left out.\<close>
  "NetmapOpen env name promisc w =
     (case find_by_name (devs w) name (netmap_devlist w) of
        None \<Rightarrow> None
      | Some (Some pdev) \<Rightarrow>
          (case devs w pdev of None \<Rightarrow> None
           | Some d \<Rightarrow> Some ((0, Some pdev), w\<lparr>devs := (devs w)(pdev \<mapsto> d\<lparr>ref := ref d + 1\<rparr>)\<rparr>))
      | Some None \<Rightarrow> Some (NetmapOpen_new env name promisc w))"

definition NetmapClose :: "ptr \<Rightarrow> world \<Rightarrow> (int \<times> world) option" where
  \<comment> \<open>lines 451-478; the list is searched for the pointer \<open>dev\<close> itself\<close>
  "NetmapClose dev w =
     (if dev \<in> set (netmap_devlist w)
      then
        (case devs w dev of None \<Rightarrow> None
         | Some d \<Rightarrow>
             if ref d - 1 \<noteq> 0
             then Some (0, w\<lparr>devs := (devs w)(dev \<mapsto> d\<lparr>ref := ref d - 1\<rparr>)\<rparr>)
             else if length (rings d) < nat (rings_cnt d) then None
             else
               let w1 = sys_munmap (mem d) w;
                   w2 = fold sys_close (map fd (take (nat (rings_cnt d)) (rings d))) w1
               in Some (0, SCFree_dev dev (w2\<lparr>netmap_devlist := removeAll dev (netmap_devlist w2)\<rparr>)))
      else Some (- 1, w))"

section \<open>Counters\<close>






section \<open>Capture thread initialisation\<close>

text \<open>\<open>NetmapIfaceConfig\<close> (source-netmap.h), the configuration consumed at init.\<close>

record NetmapIfaceConfig =
  iface :: string
  out_iface :: string
  threads :: int
  promisc :: bool
  cfg_copy_mode :: copy_mode_t
  cfg_checksum_mode :: ChecksumValidationMode
  bpf_filter :: "string option"

text \<open>
  The outcome of the external calls of one \<open>ReceiveNetmapThreadInit\<close>: the allocation of
  the thread variables, \<open>LiveGetDevice\<close>, the two device opens, the counter registration,
  the active run mode and the BPF compiler (the \<open>bf_len\<close> of the program, or \<open>None\<close>
  when the compilation fails).
\<close>

record init_env =
  ntv_alloc_ok :: bool
  LiveGetDevice :: "string \<Rightarrow> ptr option"
  src_open :: open_env
  dst_open :: open_env
  StatsRegisterCounter :: "string \<Rightarrow> 16 word"
  RunmodeGetActive :: "string option"
  pcap_compile_nopcap :: "string \<Rightarrow> nat option"

text \<open>Every failure returns \<open>TM_ECODE_FAILED\<close>; the tag records which check failed
  (for \<open>TooManyThreads\<close>, the check of lines 531-537).\<close>

datatype init_error =
  InitdataNull | MemoryAllocation | NoLiveDevice | SrcOpenFailed | TooManyThreads
  | DstOpenFailed | FilterCompilationFailed

datatype init_result = InitFailed init_error | InitOk ptr

definition NETMAP_FLAG_ZERO_COPY :: int where
  \<comment> \<open>lines 143-145\<close>
  "NETMAP_FLAG_ZERO_COPY = 1"

definition INT_OK :: "int \<Rightarrow> bool" where
  \<comment> \<open>the value fits a C \<open>int\<close>; arithmetic leaving the range is undefined behaviour\<close>
  "INT_OK x = (- (2 ^ 31) \<le> x \<and> x < 2 ^ 31)"

definition ring_borders :: "int \<Rightarrow> int \<Rightarrow> int \<Rightarrow> (int \<times> int) option" where
  \<comment> \<open>lines 543-548, "calculate rings borders": \<open>(ring_from, ring_to)\<close> from
     \<open>rings_cnt\<close>, \<open>aconf->threads\<close> and \<open>thread_idx\<close>; \<open>None\<close> is a division by zero
     or a signed overflow\<close>
  "ring_borders cnt thr idx =
     (if thr = 0 then None
      else
        let tmp = c_div cnt thr;
            rfrom = idx * tmp;
            rto = rfrom + tmp - 1
        in if \<not> INT_OK rfrom \<or> \<not> INT_OK (rfrom + tmp) \<or> \<not> INT_OK rto then None
           else Some (rfrom, if rto \<ge> cnt then cnt - 1 else rto))"

definition zero_ntv :: NetmapThreadVars where
  \<comment> \<open>line 515, \<open>memset(ntv, 0, sizeof(*ntv))\<close>; the enums' zero values\<close>
  "zero_ntv =
     \<lparr>ifsrc = None, ifdst = None, ring_from = 0, ring_to = 0, thread_idx = 0, ntv_flags = 0,
      bpf_len = 0, tv = 0, livedev = 0, copy_mode = NETMAP_COPY_MODE_NONE,
      checksum_mode = CHECKSUM_VALIDATION_DISABLE, pkts = 0, bytes = 0, drops = 0,
      capture_kernel_packets = 0, capture_kernel_drops = 0\<rparr>"

definition error_src :: "ptr \<Rightarrow> init_error \<Rightarrow> world \<Rightarrow> (init_result \<times> world) option" where
  \<comment> \<open>lines 592-598: \<open>NetmapClose(ntv->ifsrc)\<close>, free the thread variables, fail\<close>
  "error_src sp e w =
     (case NetmapClose sp w of None \<Rightarrow> None | Some (rc, w') \<Rightarrow> Some (InitFailed e, w'))"

definition init_finish :: "ptr \<Rightarrow> NetmapThreadVars \<Rightarrow> world \<Rightarrow> (init_result \<times> world) option" where
  \<comment> \<open>lines 588-590: \<open>*data = ntv\<close>\<close>
  "init_finish ntvp ntv w = Some (InitOk ntvp, w\<lparr>ntvs := (ntvs w)(ntvp \<mapsto> ntv)\<rparr>)"

definition ReceiveNetmapThreadInit ::
  "init_env \<Rightarrow> ptr \<Rightarrow> NetmapIfaceConfig option \<Rightarrow> world \<Rightarrow> (init_result \<times> world) option"
where
  \<comment> \<open>lines 500-599.  The thread variables are the local \<open>ntv\<close> until \<open>*data = ntv\<close>.
     The compare-and-swap loop of lines 539-541 is its sequential effect: read
     \<open>threads_run\<close>, store the successor.  \<open>aconf->DerefFunc\<close> and the offloading warning
     touch nothing of this state.\<close>
  "ReceiveNetmapThreadInit env tvp initdata w =
     (case initdata of
        None \<Rightarrow> Some (InitFailed InitdataNull, w)
      | Some aconf \<Rightarrow>
          if \<not> ntv_alloc_ok env then Some (InitFailed MemoryAllocation, w)
          else
            let ntvp = next_ptr w;
                w0 = w\<lparr>next_ptr := next_ptr w + 1\<rparr>;
                ntv0 = zero_ntv\<lparr>tv := tvp, checksum_mode := cfg_checksum_mode aconf,
                                copy_mode := cfg_copy_mode aconf\<rparr>
            in (case LiveGetDevice env (iface aconf) of
                  None \<Rightarrow> Some (InitFailed NoLiveDevice, w0)
                | Some ld \<Rightarrow>
                    (case NetmapOpen (src_open env) (iface aconf) (promisc aconf) w0 of
                       None \<Rightarrow> None
                     | Some ((rc, psrc), w1) \<Rightarrow>
                         if rc \<noteq> 0 then Some (InitFailed SrcOpenFailed, w1)
                         else
                           (case psrc of
                              None \<Rightarrow> None
                            | Some sp \<Rightarrow>
                                (case devs w1 sp of
                                   None \<Rightarrow> None
                                 | Some src \<Rightarrow>
                                     if threads aconf > rings_cnt src then error_src sp TooManyThreads w1
                                     else
                                       let idx = sint (threads_run src);
                                           w2 = w1\<lparr>devs := (devs w1)(sp \<mapsto> src\<lparr>threads_run := threads_run src + 1\<rparr>)\<rparr>
                                       in (case ring_borders (rings_cnt src) (threads aconf) idx of
                                             None \<Rightarrow> None
                                           | Some (rfrom, rto) \<Rightarrow>
                                               let ntv1 = ntv0\<lparr>livedev := ld, ifsrc := Some sp, thread_idx := idx,
                                                               ring_from := rfrom, ring_to := rto\<rparr>
                                               in (case (if cfg_copy_mode aconf \<noteq> NETMAP_COPY_MODE_NONE
                                                         then NetmapOpen (dst_open env) (out_iface aconf) False w2
                                                         else Some ((0, None), w2)) of
                                                     None \<Rightarrow> None
                                                   | Some ((rc2, pdst), w3) \<Rightarrow>
                                                       if rc2 \<noteq> 0 then error_src sp DstOpenFailed w3
                                                       else
                                                         let ntv2 = ntv1\<lparr>ifdst := pdst,
                                                                 capture_kernel_packets :=
                                                                   StatsRegisterCounter env ''capture.kernel_packets'',
                                                                 capture_kernel_drops :=
                                                                   StatsRegisterCounter env ''capture.kernel_drops''\<rparr>;
                                                             ntv3 = (if RunmodeGetActive env = Some ''workers''
                                                                     then ntv2\<lparr>ntv_flags := ntv_flags ntv2 OR NETMAP_FLAG_ZERO_COPY\<rparr>
                                                                     else ntv2)
                                                         in (case bpf_filter aconf of
                                                               None \<Rightarrow> init_finish ntvp ntv3 w3
                                                             | Some f \<Rightarrow>
                                                                 (case pcap_compile_nopcap env f of
                                                                    None \<Rightarrow> error_src sp FilterCompilationFailed w3
                                                                  | Some n \<Rightarrow>
                                                                      init_finish ntvp (ntv3\<lparr>bpf_len := n\<rparr>) w3)))))))))"

section \<open>Ring drain\<close>

text \<open>
  The outcome of the external calls made while one slot is processed: the BPF filter, the
  packet pool, \<open>ChecksumAutoModeCheck\<close>, \<open>PacketSetData\<close>/\<open>PacketCopyData\<close>, and the
  downstream stage.  The downstream stage knows nothing of netmap rings; what it can do to
  this state is to put a verdict on the packet and to release it through its release hook
  before returning (the workers run mode), or to keep it (\<open>ds_released = False\<close>).
\<close>

record slot_env =
  bpf_match :: bool
  pool_has_packet :: bool
  checksum_auto_check :: bool
  data_ok :: bool
  ds_ok :: bool
  ds_released :: bool
  ds_verdict_drop :: bool

definition fresh_packet :: Packet where
  \<comment> \<open>a descriptor as \<open>PacketGetFromQueueOrAlloc\<close> hands it out: the default release
     hook \<open>PacketFreeOrRelease\<close>, no flags, no action\<close>
  "fresh_packet =
     \<lparr>netmap_v_ring_id = 0, netmap_v_slot_id = 0, netmap_v_ntv = 0,
      ReleasePacket = PacketFreeOrRelease_hook, ignore_checksum_flag = False,
      test_action_drop = False, is_pseudopkt = False\<rparr>"

definition TmqhOutputPacketpool :: "Packet \<Rightarrow> world \<Rightarrow> world option" where
  \<comment> \<open>Modelled from the spec: \<open>TmqhOutputPacketpool\<close> of tmqh-packetpool.c, which is not
     under src/ ("return the packet to the pool"): it ends in \<open>p->ReleasePacket(p)\<close>.\<close>
  "TmqhOutputPacketpool p w =
     (case ReleasePacket p of
        NetmapReleasePacket_hook \<Rightarrow> NetmapReleasePacket p w
      | PacketFreeOrRelease_hook \<Rightarrow> Some (PacketFreeOrRelease p w))"

definition TmThreadsSlotProcessPkt :: "slot_env \<Rightarrow> Packet \<Rightarrow> world \<Rightarrow> (TmEcode \<times> Packet \<times> world) option" where
  \<comment> \<open>Modelled from the spec: \<open>TmThreadsSlotProcessPkt\<close> of tm-threads.h, which is not
     under src/ ("hand the packet to the downstream thread slot"): the stage refuses the
     packet, or accepts it, sets its verdict and possibly releases it.\<close>
  "TmThreadsSlotProcessPkt e p w =
     (if \<not> ds_ok e then Some (TM_ECODE_FAILED, p, w)
      else
        let p' = p\<lparr>test_action_drop := ds_verdict_drop e\<rparr>
        in if ds_released e
           then (case TmqhOutputPacketpool p' w of None \<Rightarrow> None
                 | Some w' \<Rightarrow> Some (TM_ECODE_OK, p', w'))
           else Some (TM_ECODE_OK, p', w))"

datatype slot_exit = Continue | ReturnFailure

definition checksum_policy :: "slot_env \<Rightarrow> NetmapThreadVars \<Rightarrow> world \<Rightarrow> (bool \<times> world) option" where
  \<comment> \<open>lines 703-715, "checksum validation": whether the packet gets
     \<open>PKT_IGNORE_CHECKSUM\<close>; the AUTO mode may latch the live device\<close>
  "checksum_policy e ntv w =
     (case checksum_mode ntv of
        CHECKSUM_VALIDATION_DISABLE \<Rightarrow> Some (True, w)
      | CHECKSUM_VALIDATION_ENABLE \<Rightarrow> Some (False, w)
      | CHECKSUM_VALIDATION_AUTO \<Rightarrow>
          (case livedevs w (livedev ntv) of None \<Rightarrow> None
           | Some ld \<Rightarrow>
               if ignore_checksum ld then Some (True, w)
               else if checksum_auto_check e
               then Some (True, w\<lparr>livedevs := (livedevs w)(livedev ntv \<mapsto> ld\<lparr>ignore_checksum := True\<rparr>)\<rparr>)
               else Some (False, w)))"

definition bind_and_deliver ::
  "slot_env \<Rightarrow> ptr \<Rightarrow> int \<Rightarrow> 32 word \<Rightarrow> NetmapThreadVars \<Rightarrow> Packet \<Rightarrow> world \<Rightarrow> (slot_exit \<times> world) option"
where
  \<comment> \<open>lines 717-740: the payload is bound to the packet (by reference with the release
     hook in zero-copy mode, by copy otherwise) and the packet handed downstream; a
     failure of either returns the packet to the pool\<close>
  "bind_and_deliver e t ring_id c ntv p0 w =
     (if \<not> data_ok e
      then (case TmqhOutputPacketpool p0 w of None \<Rightarrow> None
            | Some w' \<Rightarrow> Some (ReturnFailure, w'))
      else
        let p1 = (if ntv_flags ntv AND NETMAP_FLAG_ZERO_COPY \<noteq> 0
                  then p0\<lparr>ReleasePacket := NetmapReleasePacket_hook,
                          netmap_v_ring_id := ring_id,
                          netmap_v_slot_id := uint c,
                          netmap_v_ntv := t\<rparr>
                  else p0)
        in (case TmThreadsSlotProcessPkt e p1 w of None \<Rightarrow> None
            | Some (rc, p2, w') \<Rightarrow>
                if rc \<noteq> TM_ECODE_OK
                then (case TmqhOutputPacketpool p2 w' of None \<Rightarrow> None
                      | Some w'' \<Rightarrow> Some (ReturnFailure, w''))
                else Some (Continue, w')))"

definition ring_read_slot ::
  "slot_env \<Rightarrow> ptr \<Rightarrow> int \<Rightarrow> 32 word \<Rightarrow> world \<Rightarrow> (slot_exit \<times> world) option"
where
  \<comment> \<open>lines 679-740, the loop body for the slot at \<open>cur\<close>, up to the advance of \<open>cur\<close>:
     \<open>Continue\<close> covers \<open>continue\<close> and the normal end of the body, \<open>ReturnFailure\<close> is
     \<open>SCReturnInt(NETMAP_FAILURE)\<close>\<close>
  "ring_read_slot e t ring_id c w =
     (case ntvs w t of None \<Rightarrow> None
      | Some ntv \<Rightarrow>
      (case ifsrc ntv of None \<Rightarrow> None
      | Some sp \<Rightarrow>
      (case get_rx w sp ring_id of None \<Rightarrow> None
      | Some ring \<Rightarrow>
      (case get_slot ring (uint c) of None \<Rightarrow> None
      | Some s \<Rightarrow>
          if bpf_len ntv \<noteq> 0 \<and> \<not> bpf_match e then Some (Continue, w)
          else if \<not> pool_has_packet e then Some (ReturnFailure, w)
          else
            let ntv' = ntv\<lparr>pkts := pkts ntv + 1, bytes := bytes ntv + ucast (len s)\<rparr>;
                w1 = w\<lparr>ntvs := (ntvs w)(t \<mapsto> ntv')\<rparr>
            in (case checksum_policy e ntv w1 of None \<Rightarrow> None
                | Some (ign, w2) \<Rightarrow>
                    bind_and_deliver e t ring_id c ntv
                      (fresh_packet\<lparr>ignore_checksum_flag := ign\<rparr>) w2)))))"

fun ring_read_loop ::
  "(nat \<Rightarrow> slot_env) \<Rightarrow> ptr \<Rightarrow> ptr \<Rightarrow> int \<Rightarrow> nat \<Rightarrow> 32 word \<Rightarrow> world
     \<Rightarrow> ((netmap_rc \<times> 32 word) \<times> world) option"
where
  \<comment> \<open>lines 678-743, \<open>while (avail-- > 0)\<close>; \<open>env 0\<close> describes the current iteration.
     The result carries the local \<open>cur\<close>.\<close>
  "ring_read_loop env t sp ring_id 0 c w = Some ((NETMAP_OK, c), w)"
| "ring_read_loop env t sp ring_id (Suc avail) c w =
     (case ring_read_slot (env 0) t ring_id c w of None \<Rightarrow> None
      | Some (ReturnFailure, w') \<Rightarrow> Some ((NETMAP_FAILURE, c), w')
      | Some (Continue, w') \<Rightarrow>
          (case get_rx w' sp ring_id of None \<Rightarrow> None
           | Some ring \<Rightarrow>
               ring_read_loop (\<lambda>k. env (Suc k)) t sp ring_id avail (nm_ring_next ring c) w'))"

definition NetmapRingRead :: "(nat \<Rightarrow> slot_env) \<Rightarrow> ptr \<Rightarrow> int \<Rightarrow> world \<Rightarrow> (netmap_rc \<times> world) option" where
  \<comment> \<open>lines 670-747\<close>
  "NetmapRingRead env t ring_id w =
     (case ntvs w t of None \<Rightarrow> None
      | Some ntv \<Rightarrow>
      (case ifsrc ntv of None \<Rightarrow> None
      | Some sp \<Rightarrow>
      (case get_rx w sp ring_id of None \<Rightarrow> None
      | Some ring \<Rightarrow>
          (case ring_read_loop env t sp ring_id (unat (nm_ring_space ring)) (cur ring) w of
             None \<Rightarrow> None
           | Some ((NETMAP_FAILURE, c), w') \<Rightarrow> Some (NETMAP_FAILURE, w')
           | Some ((NETMAP_OK, c), w') \<Rightarrow>
               Some (NETMAP_OK, write_rx sp ring_id (\<lambda>r. r\<lparr>head := c, cur := c\<rparr>) w')))))"

definition ring_cursors :: "netmap_ring \<Rightarrow> 32 word \<times> 32 word \<times> 32 word \<times> 32 word" where
  \<comment> \<open>the fields of a ring that tell which slots belong to the user:
     \<open>(num_slots, head, cur, tail)\<close>\<close>
  "ring_cursors r = (num_slots r, head r, cur r, tail r)"

definition same_rx_cursors :: "world \<Rightarrow> world \<Rightarrow> bool" where
  \<comment> \<open>the same RX rings exist in both states, with the same cursors\<close>
  "same_rx_cursors w w' =
     (\<forall>d i. map_option ring_cursors (get_rx w' d i) = map_option ring_cursors (get_rx w d i))"

definition drain_slots :: "netmap_ring \<Rightarrow> 32 word list" where
  \<comment> \<open>the slot indices that a drain of this ring examines when nothing stops it:
     \<open>nm_ring_space\<close> slots from \<open>cur\<close> on\<close>
  "drain_slots r = map (\<lambda>k. (nm_ring_next r ^^ k) (cur r)) [0..<unat (nm_ring_space r)]"

definition published :: "world \<Rightarrow> (ptr \<Rightarrow> 16 word \<Rightarrow> 64 word) \<times> (ptr \<Rightarrow> (64 word \<times> 64 word) option)" where
  \<comment> \<open>the shared counters: the statistics, and \<open>pkts\<close> and \<open>drop\<close> of every live device\<close>
  "published w = (stats w, \<lambda>a. map_option (\<lambda>l. (ld_pkts l, ld_drop l)) (livedevs w a))"

definition thread_bytes :: "world \<Rightarrow> ptr \<Rightarrow> 64 word option" where
  \<comment> \<open>\<open>ntv->bytes\<close> of the thread variables at \<open>t\<close>\<close>
  "thread_bytes w t = map_option bytes (ntvs w t)"

section \<open>A concrete two-interface setup\<close>

text \<open>
  Interface eth0 (address 40) is bridged to eth1 (address 41); each has three ring pairs of
  six slots.  One frame of 100 bytes waits in slot 5 of RX ring 2 of eth0; the TX rings
  of eth1 have \<open>cur = head = 3\<close>.  The capture thread's variables sit at address 10.
\<close>

definition demo_ring :: "32 word \<Rightarrow> 32 word \<Rightarrow> 32 word \<Rightarrow> netmap_ring" where
  "demo_ring b c t =
     \<lparr>num_slots = 6, head = c, cur = c, tail = t,
      slot = map (\<lambda>i. \<lparr>buf_idx = b + i, len = (if i = 5 then 100 else 60), flags = 0\<rparr>)
               [0, 1, 2, 3, 4, 5]\<rparr>"

definition demo_dev :: "string \<Rightarrow> 32 word \<Rightarrow> 32 word \<Rightarrow> ptr \<Rightarrow> int \<Rightarrow> NetmapDevice" where
  \<comment> \<open>\<open>b\<close> is the first buffer index of the device, \<open>tt\<close> the tail of its TX rings,
     \<open>m\<close> its mapped region and \<open>f\<close> the descriptor of its first ring\<close>
  "demo_dev name b tt m f =
     \<lparr>ifname = name, mem = Some m, memsize = 4096, rings_cnt = 3,
      rings = [\<lparr>fd = f, rx = demo_ring b 0 0, tx = demo_ring (b + 6) 3 tt\<rparr>,
               \<lparr>fd = f + 1, rx = demo_ring (b + 12) 0 0, tx = demo_ring (b + 18) 3 tt\<rparr>,
               \<lparr>fd = f + 2, rx = demo_ring (b + 24) 5 0, tx = demo_ring (b + 30) 3 tt\<rparr>],
      ref = 1, threads_run = 1\<rparr>"

definition demo_ntv :: "copy_mode_t \<Rightarrow> NetmapThreadVars" where
  "demo_ntv cm =
     \<lparr>ifsrc = Some 40, ifdst = Some 41, ring_from = 0, ring_to = 2, thread_idx = 0,
      ntv_flags = 1, bpf_len = 0, tv = 30, livedev = 20, copy_mode = cm,
      checksum_mode = CHECKSUM_VALIDATION_ENABLE, pkts = 1, bytes = 100, drops = 0,
      capture_kernel_packets = 0, capture_kernel_drops = 1\<rparr>"

definition demo_world :: "copy_mode_t \<Rightarrow> 32 word \<Rightarrow> world" where
  \<comment> \<open>\<open>tt\<close> is the tail of the TX rings of eth1: 2 leaves five free slots, 3 none\<close>
  "demo_world cm tt =
     \<lparr>devs = [40 \<mapsto> demo_dev ''eth0'' 0 2 100 4, 41 \<mapsto> demo_dev ''eth1'' 36 tt 200 7],
      netmap_devlist = [40, 41],
      ntvs = [10 \<mapsto> demo_ntv cm],
      livedevs = [20 \<mapsto> \<lparr>ld_pkts = 0, ld_drop = 0, ld_invalid_checksums = 0, ignore_checksum = False\<rparr>],
      stats = (\<lambda>_ _. 0),
      open_fds = [4, 5, 6, 7, 8, 9],
      next_fd = 10,
      mapped = [100, 200],
      next_ptr = 300,
      pool = []\<rparr>"

definition demo_pkt :: "bool \<Rightarrow> Packet" where
  \<comment> \<open>the zero-copy packet of RX ring 2, slot 5, with its verdict\<close>
  "demo_pkt verdict_drop =
     \<lparr>netmap_v_ring_id = 2, netmap_v_slot_id = 5, netmap_v_ntv = 10,
      ReleasePacket = NetmapReleasePacket_hook, ignore_checksum_flag = False,
      test_action_drop = verdict_drop, is_pseudopkt = False\<rparr>"


section \<open>A concrete start-up\<close>

text \<open>
  A process that has opened nothing yet, and a kernel in which every call succeeds:
  an interface with four ring pairs of six slots.
\<close>

definition demo_open_env :: open_env where
  "demo_open_env =
     \<lparr>pdev_alloc_ok = True, ctl_open_ok = True, socket_ok = True, siocgifflags = Some 1,
      niocginfo = Some (4, 4, 4096), rings_alloc_ok = True,
      ring_open_ok = (\<lambda>_. True), niocregif_ok = (\<lambda>_. True), mmap_ok = True,
      kernel_rx = (\<lambda>i. demo_ring (12 * of_nat i) 0 0),
      kernel_tx = (\<lambda>i. demo_ring (12 * of_nat i + 6) 0 5)\<rparr>"

definition demo_init_env :: init_env where
  "demo_init_env =
     \<lparr>ntv_alloc_ok = True,
      LiveGetDevice = (\<lambda>n. if n = ''eth0'' then Some 20 else None),
      src_open = demo_open_env, dst_open = demo_open_env,
      StatsRegisterCounter = (\<lambda>n. if n = ''capture.kernel_packets'' then 0 else 1),
      RunmodeGetActive = Some ''workers'',
      pcap_compile_nopcap = (\<lambda>_. None)\<rparr>"

definition demo_cfg :: "int \<Rightarrow> NetmapIfaceConfig" where
  \<comment> \<open>pure capture on eth0 with the given number of threads\<close>
  "demo_cfg n =
     \<lparr>iface = ''eth0'', out_iface = [], threads = n, promisc = True,
      cfg_copy_mode = NETMAP_COPY_MODE_NONE, cfg_checksum_mode = CHECKSUM_VALIDATION_ENABLE,
      bpf_filter = None\<rparr>"

definition empty_world :: world where
  "empty_world =
     \<lparr>devs = Map.empty, netmap_devlist = [], ntvs = Map.empty,
      livedevs = [20 \<mapsto> \<lparr>ld_pkts = 0, ld_drop = 0, ld_invalid_checksums = 0, ignore_checksum = False\<rparr>],
      stats = (\<lambda>_ _. 0), open_fds = [0, 1, 2], next_fd = 3, mapped = [], next_ptr = 1000,
      pool = []\<rparr>"

fun start_threads ::
  "init_env \<Rightarrow> NetmapIfaceConfig \<Rightarrow> nat \<Rightarrow> world \<Rightarrow> ((int \<times> int) list \<times> world) option"
where
  \<comment> \<open>runs \<open>ReceiveNetmapThreadInit\<close> for \<open>n\<close> threads one after the other and collects
     each thread's \<open>(ring_from, ring_to)\<close>\<close>
  "start_threads env aconf 0 w = Some ([], w)"
| "start_threads env aconf (Suc n) w =
     (case ReceiveNetmapThreadInit env 30 (Some aconf) w of
        Some (InitOk p, w') \<Rightarrow>
          (case ntvs w' p of
             None \<Rightarrow> None
           | Some ntv \<Rightarrow>
               (case start_threads env aconf n w' of
                  None \<Rightarrow> None
                | Some (rs, w'') \<Rightarrow> Some ((ring_from ntv, ring_to ntv) # rs, w'')))
      | _ \<Rightarrow> None)"

text \<open>
  The same interface once \<open>k\<close> capture threads have been bound to it: the device is
  registered at address 40 with \<open>threads_run = k\<close>.
\<close>

definition demo4_dev :: "32 word \<Rightarrow> NetmapDevice" where
  "demo4_dev k =
     \<lparr>ifname = ''eth0'', mem = Some 100, memsize = 4096, rings_cnt = 4,
      rings = [\<lparr>fd = 4, rx = demo_ring 0 0 0, tx = demo_ring 6 0 5\<rparr>,
               \<lparr>fd = 5, rx = demo_ring 12 0 0, tx = demo_ring 18 0 5\<rparr>,
               \<lparr>fd = 6, rx = demo_ring 24 0 0, tx = demo_ring 30 0 5\<rparr>,
               \<lparr>fd = 7, rx = demo_ring 36 0 0, tx = demo_ring 42 0 5\<rparr>],
      ref = k, threads_run = k\<rparr>"

definition demo4_world :: "32 word \<Rightarrow> world" where
  "demo4_world k =
     \<lparr>devs = [40 \<mapsto> demo4_dev k], netmap_devlist = [40], ntvs = Map.empty,
      livedevs = [20 \<mapsto> \<lparr>ld_pkts = 0, ld_drop = 0, ld_invalid_checksums = 0, ignore_checksum = False\<rparr>],
      stats = (\<lambda>_ _. 0), open_fds = [0, 1, 2, 4, 5, 6, 7], next_fd = 8, mapped = [100],
      next_ptr = 1000, pool = []\<rparr>"

fun thread_range :: "(init_result \<times> world) option \<Rightarrow> (int \<times> int \<times> int) option" where
  \<comment> \<open>\<open>(thread_idx, ring_from, ring_to)\<close> of the thread a successful init has set up\<close>
  "thread_range (Some (InitOk p, w)) =
     (case ntvs w p of None \<Rightarrow> None
      | Some ntv \<Rightarrow> Some (thread_idx ntv, ring_from ntv, ring_to ntv))"
| "thread_range _ = None"

fun init_outcome :: "(init_result \<times> world) option \<Rightarrow> init_result option" where
  "init_outcome (Some (r, w)) = Some r"
| "init_outcome None = None"

text \<open>Kernels in which one step of the second ring, or the mapping, fails.\<close>

definition demo_ring_open_fails_env :: open_env where
  \<comment> \<open>\<open>open("/dev/netmap")\<close> fails for ring 1\<close>
  "demo_ring_open_fails_env = demo_open_env\<lparr>ring_open_ok := (\<lambda>i. i \<noteq> 1)\<rparr>"

definition demo_regif_fails_env :: open_env where
  \<comment> \<open>\<open>ioctl(NIOCREGIF)\<close> fails for ring 1\<close>
  "demo_regif_fails_env = demo_open_env\<lparr>niocregif_ok := (\<lambda>i. i \<noteq> 1)\<rparr>"

definition demo_mmap_fails_env :: open_env where
  "demo_mmap_fails_env = demo_open_env\<lparr>mmap_ok := False\<rparr>"

definition open_outcome ::
  "((int \<times> ptr option) \<times> world) option \<Rightarrow> ((int \<times> ptr option) \<times> ptr list \<times> int list \<times> ptr list) option"
where
  \<comment> \<open>what an open returned, and the registry, the open descriptors and the mapped
     regions it left behind\<close>
  "open_outcome r =
     (case r of None \<Rightarrow> None
      | Some (rv, w) \<Rightarrow> Some (rv, netmap_devlist w, open_fds w, mapped w))"

definition device_ref :: "world \<Rightarrow> ptr option \<Rightarrow> 32 word option" where
  "device_ref w h = (case h of None \<Rightarrow> None | Some p \<Rightarrow> map_option ref (devs w p))"

definition refcount_scenario ::
  "open_env \<Rightarrow> string \<Rightarrow> world \<Rightarrow>
     ((int \<times> ptr option) \<times> 32 word option \<times> (int \<times> ptr option) \<times> 32 word option \<times>
      int \<times> ptr list \<times> int) option"
where
  \<comment> \<open>acquire the name twice, release the handle once, release it once more; the result
     lists what the first open returned and the \<open>ref\<close> it left, the same for the second
     open, what the first close returned and the registry it left, and what the second
     close returned\<close>
  "refcount_scenario env name w =
     (case NetmapOpen env name True w of None \<Rightarrow> None
      | Some (r1, w1) \<Rightarrow>
      (case NetmapOpen env name True w1 of None \<Rightarrow> None
      | Some (r2, w2) \<Rightarrow>
      (case snd r1 of None \<Rightarrow> None
      | Some h \<Rightarrow>
      (case NetmapClose h w2 of None \<Rightarrow> None
      | Some (rc3, w3) \<Rightarrow>
      (case NetmapClose h w3 of None \<Rightarrow> None
      | Some (rc4, w4) \<Rightarrow>
          Some (r1, device_ref w1 (snd r1), r2, device_ref w2 (snd r2),
                rc3, netmap_devlist w3, rc4))))))"

section \<open>A concrete drain\<close>

text \<open>
  The two-interface setup with two frames waiting in slots 4 and 5 of RX ring 2 of eth0.
  The first is accepted downstream and released with verdict PASS before the call
  returns; for the second the packet pool is empty, or the downstream stage refuses it.
\<close>

definition drain_world :: "copy_mode_t \<Rightarrow> world" where
  "drain_world cm = write_rx 40 2 (\<lambda>r. r\<lparr>head := 4, cur := 4\<rparr>) (demo_world cm 2)"

definition slot_passes :: slot_env where
  "slot_passes =
     \<lparr>bpf_match = True, pool_has_packet = True, checksum_auto_check = False, data_ok = True,
      ds_ok = True, ds_released = True, ds_verdict_drop = False\<rparr>"

definition pool_runs_dry :: "nat \<Rightarrow> slot_env" where
  "pool_runs_dry k = (if k = 0 then slot_passes else slot_passes\<lparr>pool_has_packet := False\<rparr>)"

definition downstream_refuses :: "nat \<Rightarrow> slot_env" where
  "downstream_refuses k = (if k = 0 then slot_passes else slot_passes\<lparr>ds_ok := False\<rparr>)"

definition drain_view :: "(netmap_rc \<times> world) option \<Rightarrow> (netmap_rc \<times> (32 word \<times> 32 word \<times> 32 word \<times> 32 word) option \<times> nat) option" where
  \<comment> \<open>what a drain of RX ring 2 of eth0 returned, the ring's cursors and the number of
     packets released so far\<close>
  "drain_view r =
     (case r of None \<Rightarrow> None
      | Some (rc, w) \<Rightarrow> Some (rc, map_option ring_cursors (get_rx w 40 2), length (pool w)))"


section \<open>The forwarding path: heap lemmas\<close>

lemma get_ring_update_same:
  "get_ring dev i = Some r \<Longrightarrow> get_ring (dev\<lparr>rings := (rings dev)[nat i := r']\<rparr>) j = (if j = i then Some r' else get_ring dev j)"
  by (auto simp: get_ring_def nth_list_update split: if_splits)

lemma devs_write_tx:
  "devs (write_tx d i f w) =
     (case devs w d of None \<Rightarrow> devs w
      | Some dev \<Rightarrow> (case get_ring dev i of None \<Rightarrow> devs w
          | Some r \<Rightarrow> (devs w)(d \<mapsto> dev\<lparr>rings := (rings dev)[nat i := r\<lparr>tx := f (tx r)\<rparr>]\<rparr>)))"
  by (simp add: write_tx_def split: option.splits)

lemma devs_write_rx:
  "devs (write_rx d i f w) =
     (case devs w d of None \<Rightarrow> devs w
      | Some dev \<Rightarrow> (case get_ring dev i of None \<Rightarrow> devs w
          | Some r \<Rightarrow> (devs w)(d \<mapsto> dev\<lparr>rings := (rings dev)[nat i := r\<lparr>rx := f (rx r)\<rparr>]\<rparr>)))"
  by (simp add: write_rx_def split: option.splits)

lemma get_rx_write_tx [simp]: "get_rx (write_tx d i f w) d' j = get_rx w d' j"
  by (auto simp: get_rx_def devs_write_tx get_ring_update_same split: option.splits)

lemma get_tx_write_rx [simp]: "get_tx (write_rx d i f w) d' j = get_tx w d' j"
  by (auto simp: get_tx_def devs_write_rx get_ring_update_same split: option.splits)

lemma get_tx_write_tx:
  "get_tx (write_tx d i f w) d' j = (if d' = d \<and> j = i then map_option f (get_tx w d i) else get_tx w d' j)"
  by (auto simp: get_tx_def devs_write_tx get_ring_update_same split: option.splits)

lemma get_rx_write_rx:
  "get_rx (write_rx d i f w) d' j = (if d' = d \<and> j = i then map_option f (get_rx w d i) else get_rx w d' j)"
  by (auto simp: get_rx_def devs_write_rx get_ring_update_same split: option.splits)

lemma frame_write_tx [simp]:
  "ntvs (write_tx d i f w) = ntvs w" "pool (write_tx d i f w) = pool w"
  "livedevs (write_tx d i f w) = livedevs w" "stats (write_tx d i f w) = stats w"
  "netmap_devlist (write_tx d i f w) = netmap_devlist w"
  "open_fds (write_tx d i f w) = open_fds w" "mapped (write_tx d i f w) = mapped w"
  by (simp_all add: write_tx_def split: option.splits)

lemma frame_write_rx [simp]:
  "ntvs (write_rx d i f w) = ntvs w" "pool (write_rx d i f w) = pool w"
  "livedevs (write_rx d i f w) = livedevs w" "stats (write_rx d i f w) = stats w"
  "netmap_devlist (write_rx d i f w) = netmap_devlist w"
  "open_fds (write_rx d i f w) = open_fds w" "mapped (write_rx d i f w) = mapped w"
  by (simp_all add: write_rx_def split: option.splits)

lemma get_slot_update:
  "get_slot r i = Some s \<Longrightarrow> get_slot (r\<lparr>slot := (slot r)[nat i := s']\<rparr>) i = Some s'"
  by (auto simp: get_slot_def split: if_splits)

lemma NetmapWritePacket_forward:
  assumes "ntvs w t = Some ntv"
    and "copy_mode ntv = NETMAP_COPY_MODE_IPS \<longrightarrow> \<not> test_action_drop p"
    and "ifsrc ntv = Some sp" and "ifdst ntv = Some dp"
    and "devs w dp = Some dst" and "rings_cnt dst \<noteq> 0"
    and "get_tx w dp (c_rem (netmap_v_ring_id p) (rings_cnt dst)) = Some txr"
    and "get_rx w sp (netmap_v_ring_id p) = Some rxr"
    and "nm_ring_space txr \<noteq> 0"
    and "get_slot rxr (netmap_v_slot_id p) = Some rs"
    and "get_slot txr (uint (cur txr)) = Some ts"
  shows "NetmapWritePacket t p w = Some (TM_ECODE_OK,
           write_rx sp (netmap_v_ring_id p)
              (\<lambda>r. r\<lparr>slot := (slot r)[nat (netmap_v_slot_id p) :=
                         rs\<lparr>buf_idx := buf_idx ts, flags := flags rs OR NS_BUF_CHANGED\<rparr>]\<rparr>)
             (write_tx dp (c_rem (netmap_v_ring_id p) (rings_cnt dst))
               (\<lambda>r. r\<lparr>slot := (slot r)[unat (cur txr) :=
                        ts\<lparr>buf_idx := buf_idx rs, len := len rs, flags := flags ts OR NS_BUF_CHANGED\<rparr>],
                      head := nm_ring_next txr (cur txr), cur := nm_ring_next txr (cur txr)\<rparr>) w))"
proof -
  from assms(8) obtain src where "devs w sp = Some src"
    by (auto simp: get_rx_def split: option.splits)
  with assms show ?thesis
    by (auto simp add: NetmapWritePacket_def Let_def)
qed

lemma NetmapWritePacket_tx_full:
  assumes "ntvs w t = Some ntv"
    and "copy_mode ntv = NETMAP_COPY_MODE_IPS \<longrightarrow> \<not> test_action_drop p"
    and "ifsrc ntv = Some sp" and "ifdst ntv = Some dp"
    and "devs w dp = Some dst" and "devs w sp = Some src" and "rings_cnt dst \<noteq> 0"
    and "get_tx w dp (c_rem (netmap_v_ring_id p) (rings_cnt dst)) = Some txr"
    and "nm_ring_space txr = 0"
  shows "NetmapWritePacket t p w =
           Some (TM_ECODE_FAILED, w\<lparr>ntvs := (ntvs w)(t \<mapsto> ntv\<lparr>drops := drops ntv + 1\<rparr>)\<rparr>)"
  using assms by (auto simp add: NetmapWritePacket_def Let_def)

lemma NetmapWritePacket_ips_drop:
  assumes "ntvs w t = Some ntv" and "copy_mode ntv = NETMAP_COPY_MODE_IPS" and "test_action_drop p"
  shows "NetmapWritePacket t p w = Some (TM_ECODE_OK, w)"
  using assms by (simp add: NetmapWritePacket_def)

lemma get_rx_frame [simp]:
  "get_rx (w\<lparr>pool := x\<rparr>) d i = get_rx w d i"
  "get_rx (w\<lparr>ntvs := y\<rparr>) d i = get_rx w d i"
  by (simp_all add: get_rx_def)

lemma get_tx_frame [simp]:
  "get_tx (w\<lparr>pool := x\<rparr>) d i = get_tx w d i"
  "get_tx (w\<lparr>ntvs := y\<rparr>) d i = get_tx w d i"
  by (simp_all add: get_tx_def)

lemma NetmapReleasePacket_forward:
  assumes "ntvs w (netmap_v_ntv p) = Some ntv"
    and "copy_mode ntv \<noteq> NETMAP_COPY_MODE_NONE" and "\<not> is_pseudopkt p"
    and "copy_mode ntv = NETMAP_COPY_MODE_IPS \<longrightarrow> \<not> test_action_drop p"
    and "ifsrc ntv = Some sp" and "ifdst ntv = Some dp"
    and "devs w dp = Some dst" and "rings_cnt dst \<noteq> 0"
    and "get_tx w dp (c_rem (netmap_v_ring_id p) (rings_cnt dst)) = Some txr"
    and "get_rx w sp (netmap_v_ring_id p) = Some rxr"
    and "nm_ring_space txr \<noteq> 0"
    and "get_slot rxr (netmap_v_slot_id p) = Some rs"
    and "get_slot txr (uint (cur txr)) = Some ts"
  shows "\<exists>w'. NetmapReleasePacket p w = Some w' \<and>
           get_rx w' sp (netmap_v_ring_id p) =
             Some (rxr\<lparr>slot := (slot rxr)[nat (netmap_v_slot_id p) :=
                      rs\<lparr>buf_idx := buf_idx ts, flags := flags rs OR NS_BUF_CHANGED\<rparr>]\<rparr>) \<and>
           get_tx w' dp (c_rem (netmap_v_ring_id p) (rings_cnt dst)) =
             Some (txr\<lparr>slot := (slot txr)[unat (cur txr) :=
                      ts\<lparr>buf_idx := buf_idx rs, len := len rs, flags := flags ts OR NS_BUF_CHANGED\<rparr>],
                    head := nm_ring_next txr (cur txr), cur := nm_ring_next txr (cur txr)\<rparr>) \<and>
           pool w' = pool w @ [p] \<and> ntvs w' = ntvs w"
proof -
  note wp = NetmapWritePacket_forward [OF assms(1) assms(4-13)]
  show ?thesis
    using assms(1-3) assms(9,10)
    by (simp add: NetmapReleasePacket_def wp PacketFreeOrRelease_def get_rx_write_rx get_tx_write_tx)
qed

text \<open>
  Claim C1.  A packet that is not a pseudo-packet is released by a thread in a forwarding
  mode (TAP, or IPS without the DROP action) while the destination TX ring has free space.
  Then the release succeeds, the RX slot \<open>{ring_id, slot_id}\<close> and the TX slot at the old
  \<open>tx.cur\<close> have exchanged their \<open>buf_idx\<close>, the TX slot carries the \<open>len\<close> of the RX
  slot, both slots carry \<open>NS_BUF_CHANGED\<close>, and \<open>tx.head = tx.cur = nm_ring_next(old cur)\<close>.
\<close>

theorem forward_release_swaps_buffers:
  assumes "ntvs w (netmap_v_ntv p) = Some ntv"
    and "copy_mode ntv \<noteq> NETMAP_COPY_MODE_NONE" and "\<not> is_pseudopkt p"
    and "copy_mode ntv = NETMAP_COPY_MODE_IPS \<longrightarrow> \<not> test_action_drop p"
    and "ifsrc ntv = Some sp" and "ifdst ntv = Some dp"
    and "devs w dp = Some dst" and "rings_cnt dst \<noteq> 0"
    and "get_tx w dp (c_rem (netmap_v_ring_id p) (rings_cnt dst)) = Some txr"
    and "get_rx w sp (netmap_v_ring_id p) = Some rxr"
    and "nm_ring_space txr \<noteq> 0"
    and "get_slot rxr (netmap_v_slot_id p) = Some rs"
    and "get_slot txr (uint (cur txr)) = Some ts"
  shows "\<exists>w' rxr' txr' rs' ts'.
           NetmapReleasePacket p w = Some w' \<and>
           get_rx w' sp (netmap_v_ring_id p) = Some rxr' \<and>
           get_slot rxr' (netmap_v_slot_id p) = Some rs' \<and>
           get_tx w' dp (c_rem (netmap_v_ring_id p) (rings_cnt dst)) = Some txr' \<and>
           get_slot txr' (uint (cur txr)) = Some ts' \<and>
           buf_idx ts' = buf_idx rs \<and> buf_idx rs' = buf_idx ts \<and>
           len ts' = len rs \<and>
           flags ts' = flags ts OR NS_BUF_CHANGED \<and> flags rs' = flags rs OR NS_BUF_CHANGED \<and>
           flags ts' AND NS_BUF_CHANGED = NS_BUF_CHANGED \<and>
           flags rs' AND NS_BUF_CHANGED = NS_BUF_CHANGED \<and>
           head txr' = nm_ring_next txr (cur txr) \<and> cur txr' = nm_ring_next txr (cur txr) \<and>
           pool w' = pool w @ [p]"
proof -
  from NetmapReleasePacket_forward [OF assms] obtain w' where
    rel: "NetmapReleasePacket p w = Some w'"
    and rx': "get_rx w' sp (netmap_v_ring_id p) =
             Some (rxr\<lparr>slot := (slot rxr)[nat (netmap_v_slot_id p) :=
                      rs\<lparr>buf_idx := buf_idx ts, flags := flags rs OR NS_BUF_CHANGED\<rparr>]\<rparr>)"
    and tx': "get_tx w' dp (c_rem (netmap_v_ring_id p) (rings_cnt dst)) =
             Some (txr\<lparr>slot := (slot txr)[unat (cur txr) :=
                      ts\<lparr>buf_idx := buf_idx rs, len := len rs, flags := flags ts OR NS_BUF_CHANGED\<rparr>],
                    head := nm_ring_next txr (cur txr), cur := nm_ring_next txr (cur txr)\<rparr>)"
    and pool': "pool w' = pool w @ [p]"
    by blast
  have slot_ts: "get_slot (txr\<lparr>slot := (slot txr)[unat (cur txr) := ts'],
                           head := h, cur := c\<rparr>) (uint (cur txr)) = Some ts'" for ts' h c
    using assms(13) by (auto simp: get_slot_def split: if_splits)
  show ?thesis
    using rel rx' tx' pool' assms(12)
    by (simp add: get_slot_update slot_ts word_bw_assocs)
qed

lemma mset_swap_entries:
  assumes "i < length xs" and "j < length ys"
  shows "mset (xs[i := ys ! j]) + mset (ys[j := xs ! i]) = mset xs + mset ys"
proof -
  have a: "xs ! i \<in># mset xs" and b: "ys ! j \<in># mset ys"
    using assms by (simp_all add: nth_mem_mset)
  have "mset (xs[i := ys ! j]) + mset (ys[j := xs ! i]) =
        add_mset (ys ! j) (mset xs - {#xs ! i#}) + add_mset (xs ! i) (mset ys - {#ys ! j#})"
    by (simp only: mset_update [OF assms(1)] mset_update [OF assms(2)])
  also have "\<dots> = add_mset (xs ! i) (mset xs - {#xs ! i#}) + add_mset (ys ! j) (mset ys - {#ys ! j#})"
    by simp
  also have "\<dots> = mset xs + mset ys"
    by (simp only: insert_DiffM [OF a] insert_DiffM [OF b])
  finally show ?thesis .
qed

text \<open>
  Claim C2.  Under the same conditions, the multiset of \<open>buf_idx\<close> over the slots of the
  source RX ring together with the slots of the destination TX ring is the same after
  the release as before.
\<close>

theorem forward_swap_preserves_buf_idx_multiset:
  assumes "ntvs w (netmap_v_ntv p) = Some ntv"
    and "copy_mode ntv \<noteq> NETMAP_COPY_MODE_NONE" and "\<not> is_pseudopkt p"
    and "copy_mode ntv = NETMAP_COPY_MODE_IPS \<longrightarrow> \<not> test_action_drop p"
    and "ifsrc ntv = Some sp" and "ifdst ntv = Some dp"
    and "devs w dp = Some dst" and "rings_cnt dst \<noteq> 0"
    and "get_tx w dp (c_rem (netmap_v_ring_id p) (rings_cnt dst)) = Some txr"
    and "get_rx w sp (netmap_v_ring_id p) = Some rxr"
    and "nm_ring_space txr \<noteq> 0"
    and "get_slot rxr (netmap_v_slot_id p) = Some rs"
    and "get_slot txr (uint (cur txr)) = Some ts"
  shows "\<exists>w' rxr' txr'.
           NetmapReleasePacket p w = Some w' \<and>
           get_rx w' sp (netmap_v_ring_id p) = Some rxr' \<and>
           get_tx w' dp (c_rem (netmap_v_ring_id p) (rings_cnt dst)) = Some txr' \<and>
           mset (map buf_idx (slot rxr')) + mset (map buf_idx (slot txr')) =
           mset (map buf_idx (slot rxr)) + mset (map buf_idx (slot txr))"
proof -
  from NetmapReleasePacket_forward [OF assms] obtain w' where
    rel: "NetmapReleasePacket p w = Some w'"
    and rx': "get_rx w' sp (netmap_v_ring_id p) =
             Some (rxr\<lparr>slot := (slot rxr)[nat (netmap_v_slot_id p) :=
                      rs\<lparr>buf_idx := buf_idx ts, flags := flags rs OR NS_BUF_CHANGED\<rparr>]\<rparr>)"
    and tx': "get_tx w' dp (c_rem (netmap_v_ring_id p) (rings_cnt dst)) =
             Some (txr\<lparr>slot := (slot txr)[unat (cur txr) :=
                      ts\<lparr>buf_idx := buf_idx rs, len := len rs, flags := flags ts OR NS_BUF_CHANGED\<rparr>],
                    head := nm_ring_next txr (cur txr), cur := nm_ring_next txr (cur txr)\<rparr>)"
    by blast
  let ?i = "nat (netmap_v_slot_id p)" and ?j = "unat (cur txr)"
  let ?xs = "map buf_idx (slot rxr)" and ?ys = "map buf_idx (slot txr)"
  from assms(12) have i: "?i < length ?xs" and rs: "?xs ! ?i = buf_idx rs"
    by (auto simp: get_slot_def split: if_splits)
  from assms(13) have j: "?j < length ?ys" and ts: "?ys ! ?j = buf_idx ts"
    by (auto simp: get_slot_def split: if_splits)
  have "mset (?xs[?i := buf_idx ts]) + mset (?ys[?j := buf_idx rs]) = mset ?xs + mset ?ys"
    using mset_swap_entries [OF i j] by (simp only: rs ts)
  then show ?thesis
    using rel rx' tx' by (simp add: map_update del: mset_map)
qed

text \<open>
  Claim C3.  In IPS copy mode a packet with action DROP is not forwarded: the release
  leaves every device (so every slot and every ring cursor), the thread variables (so the
  \<open>drops\<close> counter), the statistics and the live devices as they were, and hands the
  packet back to its pool.
\<close>

theorem ips_drop_release_forwards_nothing:
  assumes "ntvs w (netmap_v_ntv p) = Some ntv"
    and "copy_mode ntv = NETMAP_COPY_MODE_IPS" and "test_action_drop p"
  shows "\<exists>w'. NetmapReleasePacket p w = Some w' \<and>
           devs w' = devs w \<and> ntvs w' = ntvs w \<and> stats w' = stats w \<and>
           livedevs w' = livedevs w \<and> pool w' = pool w @ [p]"
  using assms
  by (cases "is_pseudopkt p")
     (simp_all add: NetmapReleasePacket_def NetmapWritePacket_ips_drop PacketFreeOrRelease_def)

text \<open>
  Claim C4.  When the forwarding path finds \<open>nm_ring_space\<close> of the destination TX ring to
  be 0, \<open>NetmapWritePacket\<close> returns \<open>TM_ECODE_FAILED\<close>, the thread's \<open>drops\<close> grows by
  one, no device (slot or cursor) changes, and the packet still goes back to its pool.
\<close>

theorem tx_full_release_counts_drop:
  assumes "ntvs w (netmap_v_ntv p) = Some ntv"
    and "copy_mode ntv \<noteq> NETMAP_COPY_MODE_NONE" and "\<not> is_pseudopkt p"
    and "copy_mode ntv = NETMAP_COPY_MODE_IPS \<longrightarrow> \<not> test_action_drop p"
    and "ifsrc ntv = Some sp" and "ifdst ntv = Some dp"
    and "devs w dp = Some dst" and "devs w sp = Some src" and "rings_cnt dst \<noteq> 0"
    and "get_tx w dp (c_rem (netmap_v_ring_id p) (rings_cnt dst)) = Some txr"
    and "nm_ring_space txr = 0"
  shows "\<exists>w1 w'.
           NetmapWritePacket (netmap_v_ntv p) p w = Some (TM_ECODE_FAILED, w1) \<and>
           NetmapReleasePacket p w = Some w' \<and>
           ntvs w' = (ntvs w)(netmap_v_ntv p \<mapsto> ntv\<lparr>drops := drops ntv + 1\<rparr>) \<and>
           devs w' = devs w \<and> pool w' = pool w @ [p]"
proof -
  note wp = NetmapWritePacket_tx_full [OF assms(1) assms(4-11)]
  show ?thesis
    using assms(1-3) by (simp add: NetmapReleasePacket_def wp PacketFreeOrRelease_def)
qed

subsection \<open>The concrete setup evaluated\<close>

lemma demo_get_tx: "get_tx (demo_world cm tt) 41 2 = Some (demo_ring 66 3 tt)"
  by (simp add: demo_world_def demo_dev_def get_tx_def get_ring_def)

lemma demo_get_rx: "get_rx (demo_world cm tt) 40 2 = Some (demo_ring 24 5 0)"
  by (simp add: demo_world_def demo_dev_def get_rx_def get_ring_def)

lemma demo_space: "nm_ring_space (demo_ring 66 3 2) = 5" "nm_ring_space (demo_ring 66 3 3) = 0"
  by (simp_all add: nm_ring_space_def demo_ring_def)

lemma demo_rs: "get_slot (demo_ring 24 5 0) 5 = Some \<lparr>buf_idx = 29, len = 100, flags = 0\<rparr>"
  by (simp add: get_slot_def demo_ring_def)

lemma demo_ts: "get_slot (demo_ring 66 3 2) 3 = Some \<lparr>buf_idx = 69, len = 60, flags = 0\<rparr>"
  by (simp add: get_slot_def demo_ring_def)


lemma demo_ntv_lookup: "ntvs (demo_world cm tt) 10 = Some (demo_ntv cm)"
  by (simp add: demo_world_def)

lemma demo_devs:
  "devs (demo_world cm tt) 40 = Some (demo_dev ''eth0'' 0 2 100 4)"
  "devs (demo_world cm tt) 41 = Some (demo_dev ''eth1'' 36 tt 200 7)"
  by (simp_all add: demo_world_def)

lemma demo_rings_cnt: "rings_cnt (demo_dev name b tt m f) = 3"
  by (simp add: demo_dev_def)

lemma demo_c_rem: "c_rem 2 3 = 2"
  by (simp add: c_rem_def)

lemma demo_cur: "cur (demo_ring b c t) = c" "slot (demo_ring 24 5 0) =
  [\<lparr>buf_idx = 24, len = 60, flags = 0\<rparr>, \<lparr>buf_idx = 25, len = 60, flags = 0\<rparr>,
   \<lparr>buf_idx = 26, len = 60, flags = 0\<rparr>, \<lparr>buf_idx = 27, len = 60, flags = 0\<rparr>,
   \<lparr>buf_idx = 28, len = 60, flags = 0\<rparr>, \<lparr>buf_idx = 29, len = 100, flags = 0\<rparr>]"
  "slot (demo_ring 66 3 2) =
  [\<lparr>buf_idx = 66, len = 60, flags = 0\<rparr>, \<lparr>buf_idx = 67, len = 60, flags = 0\<rparr>,
   \<lparr>buf_idx = 68, len = 60, flags = 0\<rparr>, \<lparr>buf_idx = 69, len = 60, flags = 0\<rparr>,
   \<lparr>buf_idx = 70, len = 60, flags = 0\<rparr>, \<lparr>buf_idx = 71, len = 100, flags = 0\<rparr>]"
  by (simp_all add: demo_ring_def)

lemma demo_pkt_fields:
  "netmap_v_ring_id (demo_pkt v) = 2" "netmap_v_slot_id (demo_pkt v) = 5"
  "netmap_v_ntv (demo_pkt v) = 10" "test_action_drop (demo_pkt v) = v"
  "is_pseudopkt (demo_pkt v) = False"
  by (simp_all add: demo_pkt_def)

lemma demo_ntv_fields:
  "copy_mode (demo_ntv cm) = cm" "ifsrc (demo_ntv cm) = Some 40" "ifdst (demo_ntv cm) = Some 41"
  "drops (demo_ntv cm) = 0"
  by (simp_all add: demo_ntv_def)

lemmas demo_simps =
  demo_ntv_lookup demo_devs demo_get_tx demo_get_rx demo_space demo_rs demo_ts
  demo_pkt_fields demo_ntv_fields demo_rings_cnt demo_c_rem demo_cur

theorem forward_release_swaps_buffers_witness:
  "\<exists>w' rxr' txr' rs' ts'.
     NetmapReleasePacket (demo_pkt False) (demo_world NETMAP_COPY_MODE_IPS 2) = Some w' \<and>
     get_rx w' 40 2 = Some rxr' \<and> get_slot rxr' 5 = Some rs' \<and>
     get_tx w' 41 2 = Some txr' \<and> get_slot txr' 3 = Some ts' \<and>
     buf_idx ts' = 29 \<and> buf_idx rs' = 69 \<and> len ts' = 100 \<and>
     flags ts' = 1 \<and> flags rs' = 1 \<and> head txr' = 4 \<and> cur txr' = 4 \<and>
     pool w' = [demo_pkt False]"
proof -
  have nxt: "nm_ring_next (demo_ring 66 3 2) 3 = 4"
    by (simp add: nm_ring_next_def demo_ring_def)
  have pool0: "pool (demo_world NETMAP_COPY_MODE_IPS 2) = []"
    by (simp add: demo_world_def)
  show ?thesis
    using forward_release_swaps_buffers
      [where p = "demo_pkt False" and w = "demo_world NETMAP_COPY_MODE_IPS 2"
         and ntv = "demo_ntv NETMAP_COPY_MODE_IPS" and sp = 40 and dp = 41
         and dst = "demo_dev ''eth1'' 36 2 200 7" and txr = "demo_ring 66 3 2"
         and rxr = "demo_ring 24 5 0" and rs = "\<lparr>buf_idx = 29, len = 100, flags = 0\<rparr>"
         and ts = "\<lparr>buf_idx = 69, len = 60, flags = 0\<rparr>"]
    by (simp add: demo_simps nxt pool0 NS_BUF_CHANGED_def) blast
qed

theorem forward_swap_preserves_buf_idx_multiset_witness:
  "\<exists>w' rxr' txr'.
     NetmapReleasePacket (demo_pkt True) (demo_world NETMAP_COPY_MODE_TAP 2) = Some w' \<and>
     get_rx w' 40 2 = Some rxr' \<and> get_tx w' 41 2 = Some txr' \<and>
     mset (map buf_idx (slot rxr')) + mset (map buf_idx (slot txr')) =
     mset [24, 25, 26, 27, 28, 29] + mset [66, 67, 68, 69, 70, 71]"
  using forward_swap_preserves_buf_idx_multiset
    [where p = "demo_pkt True" and w = "demo_world NETMAP_COPY_MODE_TAP 2"
       and ntv = "demo_ntv NETMAP_COPY_MODE_TAP" and sp = 40 and dp = 41
       and dst = "demo_dev ''eth1'' 36 2 200 7" and txr = "demo_ring 66 3 2"
       and rxr = "demo_ring 24 5 0" and rs = "\<lparr>buf_idx = 29, len = 100, flags = 0\<rparr>"
       and ts = "\<lparr>buf_idx = 69, len = 60, flags = 0\<rparr>"]
  by (simp add: demo_simps del: mset_map)

theorem ips_drop_release_forwards_nothing_witness:
  "\<exists>w'. NetmapReleasePacket (demo_pkt True) (demo_world NETMAP_COPY_MODE_IPS 2) = Some w' \<and>
     devs w' = devs (demo_world NETMAP_COPY_MODE_IPS 2) \<and>
     ntvs w' = ntvs (demo_world NETMAP_COPY_MODE_IPS 2) \<and>
     pool w' = [demo_pkt True]"
proof -
  have pool0: "pool (demo_world NETMAP_COPY_MODE_IPS 2) = []"
    by (simp add: demo_world_def)
  show ?thesis
    using ips_drop_release_forwards_nothing
      [where p = "demo_pkt True" and w = "demo_world NETMAP_COPY_MODE_IPS 2"
         and ntv = "demo_ntv NETMAP_COPY_MODE_IPS"]
    by (auto simp add: demo_simps pool0)
qed

theorem tx_full_release_counts_drop_witness:
  "\<exists>w1 w'.
     NetmapWritePacket 10 (demo_pkt False) (demo_world NETMAP_COPY_MODE_IPS 3) = Some (TM_ECODE_FAILED, w1) \<and>
     NetmapReleasePacket (demo_pkt False) (demo_world NETMAP_COPY_MODE_IPS 3) = Some w' \<and>
     map_option drops (ntvs w' 10) = Some 1 \<and>
     devs w' = devs (demo_world NETMAP_COPY_MODE_IPS 3) \<and> pool w' = [demo_pkt False]"
proof -
  have pool0: "pool (demo_world NETMAP_COPY_MODE_IPS 3) = []"
    by (simp add: demo_world_def)
  show ?thesis
    using tx_full_release_counts_drop
      [where p = "demo_pkt False" and w = "demo_world NETMAP_COPY_MODE_IPS 3"
         and ntv = "demo_ntv NETMAP_COPY_MODE_IPS" and sp = 40 and dp = 41
         and dst = "demo_dev ''eth1'' 36 3 200 7" and src = "demo_dev ''eth0'' 0 2 100 4"
         and txr = "demo_ring 66 3 3"]
    by (auto simp add: demo_simps pool0)
qed


section \<open>Thread-range assignment: proofs\<close>


lemma c_div_nonneg: "0 \<le> a \<Longrightarrow> 0 < b \<Longrightarrow> c_div a b = a div b"
  by (simp add: c_div_def sgn_if)

lemma ring_borders_Some:
  assumes "ring_borders cnt thr idx = Some (rfrom, rto)"
  shows "rfrom = idx * c_div cnt thr \<and> rto = min (rfrom + c_div cnt thr - 1) (cnt - 1)"
  using assms by (auto simp: ring_borders_def Let_def min_def split: if_splits)

lemma slot_range_bound:
  assumes "0 \<le> idx" and "idx < thr" and "(0::int) \<le> cnt"
  shows "idx * (cnt div thr) + cnt div thr \<le> cnt - cnt mod thr"
proof -
  have q: "0 \<le> cnt div thr" using assms by (simp add: pos_imp_zdiv_nonneg_iff)
  have "idx + 1 \<le> thr" using assms by simp
  then have "(idx + 1) * (cnt div thr) \<le> thr * (cnt div thr)"
    using q by (rule mult_right_mono)
  also have "thr * (cnt div thr) = cnt - cnt mod thr"
    by (simp add: minus_mod_eq_mult_div [symmetric])
  finally show ?thesis by (simp add: algebra_simps)
qed

lemma ring_borders_in_range:
  assumes "0 \<le> idx" and "idx < thr" and "thr \<le> cnt" and "cnt < 2 ^ 31"
  shows "ring_borders cnt thr idx =
           Some (idx * (cnt div thr), idx * (cnt div thr) + cnt div thr - 1)"
proof -
  have thr: "0 < thr" and cnt: "0 \<le> cnt" using assms by simp_all
  have cd: "c_div cnt thr = cnt div thr" by (rule c_div_nonneg [OF cnt thr])
  define q where "q = cnt div thr"
  define a where "a = idx * q"
  have "thr div thr \<le> cnt div thr" using assms(3) thr by (rule zdiv_mono1)
  then have q: "1 \<le> q" using thr by (simp add: q_def)
  have ub: "a + q \<le> cnt - cnt mod thr"
    using slot_range_bound [OF assms(1,2) cnt] by (simp add: q_def a_def)
  have m: "0 \<le> cnt mod thr" using thr by simp
  have ub': "a + q \<le> cnt" using ub m by linarith
  have lb: "0 \<le> a" using assms(1) q by (simp add: a_def)
  have "ring_borders cnt thr idx = Some (a, a + q - 1)"
    using thr q ub' lb assms(4)
    by (simp add: ring_borders_def Let_def cd INT_OK_def q_def [symmetric] a_def [symmetric])
  then show ?thesis by (simp add: a_def q_def)
qed

lemma fold_sys_close_frame [simp]:
  "devs (fold sys_close fs w) = devs w"
  "netmap_devlist (fold sys_close fs w) = netmap_devlist w"
  "mapped (fold sys_close fs w) = mapped w"
  "ntvs (fold sys_close fs w) = ntvs w"
  "next_ptr (fold sys_close fs w) = next_ptr w"
  "next_fd (fold sys_close fs w) = next_fd w"
  by (induction fs arbitrary: w; simp add: sys_close_def)+

lemma sys_munmap_frame [simp]:
  "devs (sys_munmap m w) = devs w"
  "netmap_devlist (sys_munmap m w) = netmap_devlist w"
  "open_fds (sys_munmap m w) = open_fds w"
  "ntvs (sys_munmap m w) = ntvs w"
  "next_ptr (sys_munmap m w) = next_ptr w"
  "next_fd (sys_munmap m w) = next_fd w"
  by (simp_all add: sys_munmap_def split: option.splits)

lemma NetmapClose_threads_run:
  assumes "NetmapClose p w = Some (rc, w')" and "devs w' a = Some d'"
  shows "\<exists>d. devs w a = Some d \<and> threads_run d' = threads_run d"
  using assms
  by (auto simp: NetmapClose_def SCFree_dev_def Let_def split: if_splits option.splits)

lemma NetmapClose_defined:
  assumes "devs w p = Some d" and "nat (rings_cnt d) \<le> length (rings d)"
  shows "\<exists>rc w'. NetmapClose p w = Some (rc, w')"
  using assms by (simp add: NetmapClose_def Let_def)

lemma error_src_not_ok [simp]: "error_src sp e w \<noteq> Some (InitOk p, w')"
  by (simp add: error_src_def split: option.splits prod.splits)

lemma init_too_many_threads:
  assumes "ntv_alloc_ok env" and "LiveGetDevice env (iface aconf) = Some ld"
    and "NetmapOpen (src_open env) (iface aconf) (promisc aconf) (w\<lparr>next_ptr := next_ptr w + 1\<rparr>)
           = Some ((0, Some sp), w1)"
    and "devs w1 sp = Some src"
    and "rings_cnt src < threads aconf"
  shows "ReceiveNetmapThreadInit env tvp (Some aconf) w = error_src sp TooManyThreads w1"
  using assms by (simp add: ReceiveNetmapThreadInit_def Let_def)

lemma init_ok_range:
  assumes "ntv_alloc_ok env" and "LiveGetDevice env (iface aconf) = Some ld"
    and "NetmapOpen (src_open env) (iface aconf) (promisc aconf) (w\<lparr>next_ptr := next_ptr w + 1\<rparr>)
           = Some ((0, Some sp), w1)"
    and "devs w1 sp = Some src"
    and "ReceiveNetmapThreadInit env tvp (Some aconf) w = Some (InitOk ntvp, w')"
  shows "threads aconf \<le> rings_cnt src \<and>
         (\<exists>ntv. ntvs w' ntvp = Some ntv \<and> ifsrc ntv = Some sp \<and>
                thread_idx ntv = sint (threads_run src) \<and>
                ring_borders (rings_cnt src) (threads aconf) (sint (threads_run src)) =
                  Some (ring_from ntv, ring_to ntv))"
  using assms
  by (auto simp: ReceiveNetmapThreadInit_def Let_def init_finish_def
           split: if_splits option.splits prod.splits)

lemma NetmapOpen_existing:
  assumes "find_by_name (devs w) name (netmap_devlist w) = Some (Some p)"
    and "devs w p = Some d"
  shows "NetmapOpen env name pr w =
           Some ((0, Some p), w\<lparr>devs := (devs w)(p \<mapsto> d\<lparr>ref := ref d + 1\<rparr>)\<rparr>)"
  using assms by (simp add: NetmapOpen_def)

lemma init_existing_capture_only:
  assumes "ntv_alloc_ok env" and "LiveGetDevice env (iface aconf) = Some ld"
    and "find_by_name (devs w) (iface aconf) (netmap_devlist w) = Some (Some sp)"
    and "devs w sp = Some d"
    and "cfg_copy_mode aconf = NETMAP_COPY_MODE_NONE" and "bpf_filter aconf = None"
    and "threads aconf \<le> rings_cnt d"
    and "ring_borders (rings_cnt d) (threads aconf) (sint (threads_run d)) = Some (rfrom, rto)"
  shows "\<exists>w' ntv. ReceiveNetmapThreadInit env tvp (Some aconf) w = Some (InitOk (next_ptr w), w') \<and>
           ntvs w' (next_ptr w) = Some ntv \<and> thread_idx ntv = sint (threads_run d) \<and>
           ring_from ntv = rfrom \<and> ring_to ntv = rto \<and>
           netmap_devlist w' = netmap_devlist w \<and>
           devs w' = (devs w)(sp \<mapsto> d\<lparr>ref := ref d + 1, threads_run := threads_run d + 1\<rparr>)"
  using assms
  by (simp add: ReceiveNetmapThreadInit_def NetmapOpen_def Let_def init_finish_def)

text \<open>
  Claim C6.  Let the init have opened its source device \<open>src\<close>, with \<open>R = rings_cnt src\<close>
  rings, and let \<open>T = aconf->threads\<close> be positive.  If \<open>T > R\<close> the init fails with the
  too-many-threads error and no device's \<open>threads_run\<close> has changed: no slot was claimed.
  Whenever the init succeeds, \<open>T \<le> R\<close>, the claimed slot \<open>s\<close> is the value of
  \<open>threads_run\<close> found, \<open>ring_from = s * (R div T)\<close> and
  \<open>ring_to = min (ring_from + R div T - 1) (R - 1)\<close>.
\<close>

theorem thread_init_computes_ring_range:
  assumes "ntv_alloc_ok env" and "LiveGetDevice env (iface aconf) = Some ld"
    and "NetmapOpen (src_open env) (iface aconf) (promisc aconf) (w\<lparr>next_ptr := next_ptr w + 1\<rparr>)
           = Some ((0, Some sp), w1)"
    and "devs w1 sp = Some src"
    and "nat (rings_cnt src) \<le> length (rings src)"
    and "0 < threads aconf"
  shows "(rings_cnt src < threads aconf \<longrightarrow>
            (\<exists>w'. ReceiveNetmapThreadInit env tvp (Some aconf) w = Some (InitFailed TooManyThreads, w') \<and>
                  (\<forall>a d'. devs w' a = Some d' \<longrightarrow>
                           (\<exists>d. devs w1 a = Some d \<and> threads_run d' = threads_run d)))) \<and>
         (\<forall>ntvp w'. ReceiveNetmapThreadInit env tvp (Some aconf) w = Some (InitOk ntvp, w') \<longrightarrow>
            threads aconf \<le> rings_cnt src \<and>
            (\<exists>ntv. ntvs w' ntvp = Some ntv \<and> thread_idx ntv = sint (threads_run src) \<and>
                   ring_from ntv = thread_idx ntv * (rings_cnt src div threads aconf) \<and>
                   ring_to ntv = min (ring_from ntv + rings_cnt src div threads aconf - 1)
                                     (rings_cnt src - 1)))"
proof (intro conjI impI allI)
  assume many: "rings_cnt src < threads aconf"
  from NetmapClose_defined [OF assms(4,5)] obtain rc w' where
    cl: "NetmapClose sp w1 = Some (rc, w')" by blast
  have "ReceiveNetmapThreadInit env tvp (Some aconf) w = Some (InitFailed TooManyThreads, w')"
    using init_too_many_threads [OF assms(1-4) many] cl by (simp add: error_src_def)
  moreover have "\<forall>a d'. devs w' a = Some d' \<longrightarrow>
                   (\<exists>d. devs w1 a = Some d \<and> threads_run d' = threads_run d)"
    using NetmapClose_threads_run [OF cl] by blast
  ultimately show "\<exists>w'. ReceiveNetmapThreadInit env tvp (Some aconf) w = Some (InitFailed TooManyThreads, w') \<and>
                  (\<forall>a d'. devs w' a = Some d' \<longrightarrow>
                           (\<exists>d. devs w1 a = Some d \<and> threads_run d' = threads_run d))"
    by blast
next
  fix ntvp w'
  assume ok: "ReceiveNetmapThreadInit env tvp (Some aconf) w = Some (InitOk ntvp, w')"
  from init_ok_range [OF assms(1-4) ok] show "threads aconf \<le> rings_cnt src" by blast
next
  fix ntvp w'
  assume ok: "ReceiveNetmapThreadInit env tvp (Some aconf) w = Some (InitOk ntvp, w')"
  from init_ok_range [OF assms(1-4) ok] obtain ntv where
    le: "threads aconf \<le> rings_cnt src" and ntv: "ntvs w' ntvp = Some ntv"
    and idx: "thread_idx ntv = sint (threads_run src)"
    and rb: "ring_borders (rings_cnt src) (threads aconf) (sint (threads_run src)) =
               Some (ring_from ntv, ring_to ntv)"
    by blast
  have cd: "c_div (rings_cnt src) (threads aconf) = rings_cnt src div threads aconf"
    using le assms(6) by (intro c_div_nonneg) simp_all
  from ring_borders_Some [OF rb] ntv idx cd
  show "\<exists>ntv. ntvs w' ntvp = Some ntv \<and> thread_idx ntv = sint (threads_run src) \<and>
             ring_from ntv = thread_idx ntv * (rings_cnt src div threads aconf) \<and>
             ring_to ntv = min (ring_from ntv + rings_cnt src div threads aconf - 1)
                               (rings_cnt src - 1)"
    by simp
qed

text \<open>
  Claim C5, as amended.  Let \<open>0 < T < R\<close> with \<open>T\<close> not dividing \<open>R\<close>.  Every thread
  whose init claims a slot \<open>s\<close> with \<open>0 \<le> s < T\<close> gets \<open>ring_from = s * (R div T)\<close> and
  \<open>ring_to = (s + 1) * (R div T) - 1\<close>.  This \<open>ring_to\<close> is at most \<open>R - 1 - R mod T\<close>, hence
  below \<open>R - 1\<close>, and it reaches \<open>R - 1 - R mod T = T * (R div T) - 1\<close> exactly for the
  last slot \<open>s = T - 1\<close>.  So the range of none of the \<open>T\<close> threads with slots
  \<open>0 .. T - 1\<close> contains any of the last \<open>R mod T\<close> rings
  \<open>R - R mod T, ..., R - 1\<close>.
\<close>

theorem configured_threads_leave_remainder_rings:
  assumes "ntv_alloc_ok env" and "LiveGetDevice env (iface aconf) = Some ld"
    and "NetmapOpen (src_open env) (iface aconf) (promisc aconf) (w\<lparr>next_ptr := next_ptr w + 1\<rparr>)
           = Some ((0, Some sp), w1)"
    and "devs w1 sp = Some src"
    and "0 < threads aconf" and "threads aconf < rings_cnt src"
    and "rings_cnt src mod threads aconf \<noteq> 0"
    and "0 \<le> sint (threads_run src)" and "sint (threads_run src) < threads aconf"
    and "ReceiveNetmapThreadInit env tvp (Some aconf) w = Some (InitOk ntvp, w')"
  shows "\<exists>ntv. ntvs w' ntvp = Some ntv \<and> thread_idx ntv = sint (threads_run src) \<and>
           ring_from ntv = thread_idx ntv * (rings_cnt src div threads aconf) \<and>
           ring_to ntv = (thread_idx ntv + 1) * (rings_cnt src div threads aconf) - 1 \<and>
           ring_to ntv \<le> rings_cnt src - 1 - rings_cnt src mod threads aconf \<and>
           ring_to ntv < rings_cnt src - 1 \<and>
           (ring_to ntv = rings_cnt src - 1 - rings_cnt src mod threads aconf) =
             (thread_idx ntv = threads aconf - 1) \<and>
           {ring_from ntv..ring_to ntv} \<inter>
             {rings_cnt src - rings_cnt src mod threads aconf..<rings_cnt src} = {}"
proof -
  let ?R = "rings_cnt src" and ?T = "threads aconf" and ?s = "sint (threads_run src)"
  define q where "q = ?R div ?T"
  from init_ok_range [OF assms(1-4) assms(10)] obtain ntv where
    ntv: "ntvs w' ntvp = Some ntv"
    and idx: "thread_idx ntv = ?s"
    and rb: "ring_borders ?R ?T ?s = Some (ring_from ntv, ring_to ntv)"
    by blast
  have cd: "c_div ?R ?T = q"
    unfolding q_def using assms(5,6) by (intro c_div_nonneg) simp_all
  have m: "0 < ?R mod ?T"
    using assms(5,7) pos_mod_sign [of ?T ?R] by linarith
  have tq: "?T * q = ?R - ?R mod ?T"
    by (simp add: q_def minus_mod_eq_mult_div [symmetric])
  have "?T div ?T \<le> ?R div ?T" using assms(5,6) by (intro zdiv_mono1) simp_all
  then have q1: "1 \<le> q" using assms(5) by (simp add: q_def)
  have ub: "?s * q + q \<le> ?R - ?R mod ?T"
    using slot_range_bound [OF assms(8,9), of ?R] assms(5,6) by (simp add: q_def)
  have rf: "ring_from ntv = ?s * q"
    using ring_borders_Some [OF rb] cd by simp
  have rt: "ring_to ntv = ?s * q + q - 1"
    using ring_borders_Some [OF rb] cd rf ub m by (simp add: min_def)
  have rt': "ring_to ntv = (?s + 1) * q - 1"
    using rt by (simp add: algebra_simps)
  have le: "ring_to ntv \<le> ?R - 1 - ?R mod ?T" using rt ub by linarith
  have lt: "ring_to ntv < ?R - 1" using le m by linarith
  have "(ring_to ntv = ?R - 1 - ?R mod ?T) = ((?s + 1) * q = ?T * q)"
    using rt' tq by auto
  also have "\<dots> = (?s + 1 = ?T)" using q1 by simp
  also have "\<dots> = (?s = ?T - 1)" by auto
  finally have last: "(ring_to ntv = ?R - 1 - ?R mod ?T) = (?s = ?T - 1)" .
  have disj: "{ring_from ntv..ring_to ntv} \<inter> {?R - ?R mod ?T..<?R} = {}"
    using le by auto
  show ?thesis
    using ntv idx rf rt' le lt last disj by (simp add: q_def)
qed

subsection \<open>Four rings, three threads\<close>

lemma demo4_find:
  "find_by_name (devs (demo4_world k)) ''eth0'' (netmap_devlist (demo4_world k)) = Some (Some 40)"
  "devs (demo4_world k) 40 = Some (demo4_dev k)"
  by (simp_all add: demo4_world_def demo4_dev_def)

lemma demo4_open:
  "NetmapOpen e ''eth0'' pr ((demo4_world k)\<lparr>next_ptr := next_ptr (demo4_world k) + 1\<rparr>) =
     Some ((0, Some 40),
           (demo4_world k)\<lparr>next_ptr := next_ptr (demo4_world k) + 1,
                           devs := [40 \<mapsto> (demo4_dev k)\<lparr>ref := k + 1\<rparr>]\<rparr>)"
  by (simp add: NetmapOpen_def demo4_world_def demo4_dev_def)

lemma demo4_dev_fields:
  "rings_cnt (demo4_dev k) = 4" "threads_run (demo4_dev k) = k" "length (rings (demo4_dev k)) = 4"
  by (simp_all add: demo4_dev_def)

lemma demo_cfg_fields:
  "iface (demo_cfg n) = ''eth0''" "threads (demo_cfg n) = n" "promisc (demo_cfg n) = True"
  "cfg_copy_mode (demo_cfg n) = NETMAP_COPY_MODE_NONE" "bpf_filter (demo_cfg n) = None"
  by (simp_all add: demo_cfg_def)

lemma demo_init_env_fields:
  "ntv_alloc_ok demo_init_env" "LiveGetDevice demo_init_env ''eth0'' = Some 20"
  by (simp_all add: demo_init_env_def)

lemma demo_borders:
  "ring_borders 4 3 0 = Some (0, 0)" "ring_borders 4 3 1 = Some (1, 1)"
  "ring_borders 4 3 2 = Some (2, 2)"
  by (simp_all add: ring_borders_def c_div_def INT_OK_def)

lemma demo4_init:
  assumes "ring_borders 4 3 (sint k) = Some (rfrom, rto)"
  shows "thread_range (ReceiveNetmapThreadInit demo_init_env 30 (Some (demo_cfg 3)) (demo4_world k)) =
           Some (sint k, rfrom, rto)"
proof -
  from init_existing_capture_only
         [of demo_init_env "demo_cfg 3" 20 "demo4_world k" 40 "demo4_dev k" rfrom rto 30]
  obtain w' ntv where
    "ReceiveNetmapThreadInit demo_init_env 30 (Some (demo_cfg 3)) (demo4_world k) =
       Some (InitOk (next_ptr (demo4_world k)), w')"
    and "ntvs w' (next_ptr (demo4_world k)) = Some ntv"
    and "thread_idx ntv = sint k" and "ring_from ntv = rfrom" and "ring_to ntv = rto"
    using assms
    by (auto simp: demo4_find demo4_dev_fields demo_cfg_fields demo_init_env_fields)
  then show ?thesis by simp
qed

lemmas open_rings_numeral =
  open_rings.simps(2) [where n = "pred_numeral k" for k, unfolded numeral_eq_Suc [symmetric]]

lemmas replicate_numeral_eval =
  replicate.simps(2) [where n = "pred_numeral k" for k, unfolded numeral_eq_Suc [symmetric]]

lemmas registry_eval = replicate_numeral_eval
  NetmapOpen_def NetmapOpen_new_def open_rings_numeral open_rings.simps(1) sys_open_def sys_close_def sys_mmap_def
  sys_munmap_def SCFree_dev_def error_pdev_def error_fd_def error_mem_def set_ring_fd_def
  set_ring_views_def NetmapGetIfaceFlags_def IFF_UP_def IFNAMSIZ_def zero_NetmapRing_def
  Let_def

text \<open>The first thread finds no device and creates it; the next two find it registered.\<close>

lemma init_first_thread:
  "\<exists>w' ntv d. ReceiveNetmapThreadInit demo_init_env 30 (Some (demo_cfg 3)) empty_world =
       Some (InitOk 1000, w') \<and>
     ntvs w' 1000 = Some ntv \<and> ring_from ntv = 0 \<and> ring_to ntv = 0 \<and>
     netmap_devlist w' = [1001] \<and> devs w' 1001 = Some d \<and> ifname d = ''eth0'' \<and>
     rings_cnt d = 4 \<and> threads_run d = 1"
  by (simp add: ReceiveNetmapThreadInit_def demo_init_env_def demo_cfg_def registry_eval
        demo_open_env_def empty_world_def ring_borders_def c_div_def INT_OK_def init_finish_def
        zero_ntv_def)

lemma init_next_thread:
  assumes "netmap_devlist w = [1001]" and "devs w 1001 = Some d" and "ifname d = ''eth0''"
    and "rings_cnt d = 4" and "ring_borders 4 3 (sint (threads_run d)) = Some (rfrom, rto)"
  shows "\<exists>w' ntv d'. ReceiveNetmapThreadInit demo_init_env 30 (Some (demo_cfg 3)) w =
           Some (InitOk (next_ptr w), w') \<and>
         ntvs w' (next_ptr w) = Some ntv \<and> ring_from ntv = rfrom \<and> ring_to ntv = rto \<and>
         netmap_devlist w' = [1001] \<and> devs w' 1001 = Some d' \<and> ifname d' = ''eth0'' \<and>
         rings_cnt d' = 4 \<and> threads_run d' = threads_run d + 1"
proof -
  from init_existing_capture_only
         [of demo_init_env "demo_cfg 3" 20 w 1001 d rfrom rto 30]
  obtain w' ntv where
    "ReceiveNetmapThreadInit demo_init_env 30 (Some (demo_cfg 3)) w = Some (InitOk (next_ptr w), w')"
    and "ntvs w' (next_ptr w) = Some ntv" and "ring_from ntv = rfrom" and "ring_to ntv = rto"
    and "netmap_devlist w' = netmap_devlist w"
    and "devs w' = (devs w)(1001 \<mapsto> d\<lparr>ref := ref d + 1, threads_run := threads_run d + 1\<rparr>)"
    using assms by (auto simp: demo_cfg_fields demo_init_env_fields)
  then show ?thesis using assms by simp
qed

lemma three_threads_on_four_rings:
  "map_option fst (start_threads demo_init_env (demo_cfg 3) 3 empty_world) =
     Some [(0, 0), (1, 1), (2, 2)]"
proof -
  from init_first_thread obtain w1 n1 d1 where
    i1: "ReceiveNetmapThreadInit demo_init_env 30 (Some (demo_cfg 3)) empty_world = Some (InitOk 1000, w1)"
    and n1: "ntvs w1 1000 = Some n1" "ring_from n1 = 0" "ring_to n1 = 0"
    and s1: "netmap_devlist w1 = [1001]" "devs w1 1001 = Some d1" "ifname d1 = ''eth0''"
      "rings_cnt d1 = 4" "threads_run d1 = 1"
    by blast
  have b1: "ring_borders 4 3 (sint (threads_run d1)) = Some (1, 1)"
    by (simp add: s1 demo_borders)
  from init_next_thread [OF s1(1-4) b1] obtain w2 n2 d2 where
    i2: "ReceiveNetmapThreadInit demo_init_env 30 (Some (demo_cfg 3)) w1 = Some (InitOk (next_ptr w1), w2)"
    and n2: "ntvs w2 (next_ptr w1) = Some n2" "ring_from n2 = 1" "ring_to n2 = 1"
    and s2: "netmap_devlist w2 = [1001]" "devs w2 1001 = Some d2" "ifname d2 = ''eth0''"
      "rings_cnt d2 = 4" "threads_run d2 = threads_run d1 + 1"
    by blast
  have b2: "ring_borders 4 3 (sint (threads_run d2)) = Some (2, 2)"
    by (simp add: s2 s1 demo_borders)
  from init_next_thread [OF s2(1-4) b2] obtain w3 n3 d3 where
    i3: "ReceiveNetmapThreadInit demo_init_env 30 (Some (demo_cfg 3)) w2 = Some (InitOk (next_ptr w2), w3)"
    and n3: "ntvs w3 (next_ptr w2) = Some n3" "ring_from n3 = 2" "ring_to n3 = 2"
    by blast
  show ?thesis
    by (simp add: numeral_3_eq_3 i1 n1 i2 n2 i3 n3)
qed

text \<open>
  Claim C5 as stated fails: with 4 rings and 3 threads the threads get \<open>[0,0]\<close>, \<open>[1,1]\<close>
  and \<open>[2,2]\<close>; the last thread's \<open>ring_to\<close> is 2, not \<open>4 - 1\<close>.
\<close>

theorem last_thread_of_three_on_four_rings_counterexample:
  "map_option fst (start_threads demo_init_env (demo_cfg 3) 3 empty_world) =
     Some [(0, 0), (1, 1), (2, 2)] \<and>
   map_option fst (start_threads demo_init_env (demo_cfg 3) 3 empty_world) \<noteq>
     Some [(0, 0), (1, 1), (2, 4 - 1)] \<and>
   thread_range (ReceiveNetmapThreadInit demo_init_env 30 (Some (demo_cfg 3)) (demo4_world 2)) =
     Some (2, 2, 2)"
  using demo4_init [of 2 2 2]
  by (simp add: three_threads_on_four_rings demo_borders)

lemma demo4_src_open:
  "NetmapOpen (src_open demo_init_env) (iface (demo_cfg n)) (promisc (demo_cfg n))
     ((demo4_world k)\<lparr>next_ptr := next_ptr (demo4_world k) + 1\<rparr>) =
     Some ((0, Some 40),
           (demo4_world k)\<lparr>next_ptr := next_ptr (demo4_world k) + 1,
                           devs := [40 \<mapsto> (demo4_dev k)\<lparr>ref := k + 1\<rparr>]\<rparr>)"
  unfolding demo_cfg_fields by (rule demo4_open)

lemma demo4_src_dev:
  "devs ((demo4_world k)\<lparr>next_ptr := next_ptr (demo4_world k) + 1,
                         devs := [40 \<mapsto> (demo4_dev k)\<lparr>ref := k + 1\<rparr>]\<rparr>) 40 =
     Some ((demo4_dev k)\<lparr>ref := k + 1\<rparr>)"
  by simp

lemma demo4_live: "LiveGetDevice demo_init_env (iface (demo_cfg n)) = Some 20"
  by (simp add: demo_cfg_fields demo_init_env_fields)

lemma demo4_thread:
  assumes "0 \<le> sint k" and "sint k < 3"
  shows "\<exists>w'. ReceiveNetmapThreadInit demo_init_env 30 (Some (demo_cfg 3)) (demo4_world k) =
           Some (InitOk (next_ptr (demo4_world k)), w')"
proof -
  have rb: "ring_borders 4 3 (sint k) = Some (sint k * (4 div 3), sint k * (4 div 3) + 4 div 3 - 1)"
    using assms by (intro ring_borders_in_range) simp_all
  from init_existing_capture_only
         [of demo_init_env "demo_cfg 3" 20 "demo4_world k" 40 "demo4_dev k" _ _ 30]
  show ?thesis
    using rb by (auto simp: demo4_find demo4_dev_fields demo_cfg_fields demo_init_env_fields)
qed

theorem configured_threads_leave_remainder_rings_witness:
  "thread_range (ReceiveNetmapThreadInit demo_init_env 30 (Some (demo_cfg 3)) (demo4_world 0)) =
     Some (0, 0, 0) \<and>
   thread_range (ReceiveNetmapThreadInit demo_init_env 30 (Some (demo_cfg 3)) (demo4_world 1)) =
     Some (1, 1, 1) \<and>
   thread_range (ReceiveNetmapThreadInit demo_init_env 30 (Some (demo_cfg 3)) (demo4_world 2)) =
     Some (2, 2, 2) \<and>
   {0..2} \<inter> {4 - 4 mod 3..<4::int} = {}"
proof -
  have each: "thread_range (ReceiveNetmapThreadInit demo_init_env 30 (Some (demo_cfg 3)) (demo4_world k)) =
                Some (sint k, sint k, sint k)"
    if k: "0 \<le> sint k" "sint k < 3" for k
  proof -
    from demo4_thread [OF k] obtain w' where ok:
      "ReceiveNetmapThreadInit demo_init_env 30 (Some (demo_cfg 3)) (demo4_world k) =
         Some (InitOk (next_ptr (demo4_world k)), w')"
      by blast
    have "\<exists>ntv. ntvs w' (next_ptr (demo4_world k)) = Some ntv \<and>
            thread_idx ntv = sint (threads_run ((demo4_dev k)\<lparr>ref := k + 1\<rparr>)) \<and>
            ring_from ntv = thread_idx ntv *
              (rings_cnt ((demo4_dev k)\<lparr>ref := k + 1\<rparr>) div threads (demo_cfg 3)) \<and>
            ring_to ntv = (thread_idx ntv + 1) *
              (rings_cnt ((demo4_dev k)\<lparr>ref := k + 1\<rparr>) div threads (demo_cfg 3)) - 1 \<and>
            ring_to ntv \<le> rings_cnt ((demo4_dev k)\<lparr>ref := k + 1\<rparr>) - 1 -
              rings_cnt ((demo4_dev k)\<lparr>ref := k + 1\<rparr>) mod threads (demo_cfg 3) \<and>
            ring_to ntv < rings_cnt ((demo4_dev k)\<lparr>ref := k + 1\<rparr>) - 1 \<and>
            (ring_to ntv = rings_cnt ((demo4_dev k)\<lparr>ref := k + 1\<rparr>) - 1 -
               rings_cnt ((demo4_dev k)\<lparr>ref := k + 1\<rparr>) mod threads (demo_cfg 3)) =
              (thread_idx ntv = threads (demo_cfg 3) - 1) \<and>
            {ring_from ntv..ring_to ntv} \<inter>
              {rings_cnt ((demo4_dev k)\<lparr>ref := k + 1\<rparr>) -
                 rings_cnt ((demo4_dev k)\<lparr>ref := k + 1\<rparr>) mod threads (demo_cfg 3)..<
               rings_cnt ((demo4_dev k)\<lparr>ref := k + 1\<rparr>)} = {}"
      by (rule configured_threads_leave_remainder_rings
                [OF demo_init_env_fields(1) demo4_live demo4_src_open demo4_src_dev _ _ _ _ _ ok])
         (simp_all add: demo_cfg_fields demo4_dev_fields k)
    then obtain ntv where "ntvs w' (next_ptr (demo4_world k)) = Some ntv"
      and "thread_idx ntv = sint k" and "ring_from ntv = sint k" and "ring_to ntv = sint k"
      by (auto simp: demo_cfg_fields demo4_dev_fields)
    with ok show ?thesis by simp
  qed
  from each [of 0] each [of 1] each [of 2] show ?thesis by auto
qed

text \<open>
  The bound \<open>s < T\<close> matters: the init does not compare the slot it claims with
  \<open>aconf->threads\<close>, so a further init on the same device, finding \<open>threads_run = 3\<close>,
  computes the range \<open>[3,3]\<close>.
\<close>

lemma init_beyond_thread_count:
  "thread_range (ReceiveNetmapThreadInit demo_init_env 30 (Some (demo_cfg 3)) (demo4_world 3)) =
     Some (3, 3, 3)"
  using demo4_init [of 3 3 3] by (simp add: ring_borders_def c_div_def INT_OK_def)

theorem thread_init_computes_ring_range_witness:
  "thread_range (ReceiveNetmapThreadInit demo_init_env 30 (Some (demo_cfg 2)) (demo4_world 1)) =
     Some (1, 2, 3) \<and>
   init_outcome (ReceiveNetmapThreadInit demo_init_env 30 (Some (demo_cfg 5)) (demo4_world 1)) =
     Some (InitFailed TooManyThreads)"
proof -
  have rb: "ring_borders 4 2 1 = Some (2, 3)"
    by (simp add: ring_borders_def c_div_def INT_OK_def)
  from init_existing_capture_only
         [of demo_init_env "demo_cfg 2" 20 "demo4_world 1" 40 "demo4_dev 1" 2 3 30]
  obtain w' where ok:
    "ReceiveNetmapThreadInit demo_init_env 30 (Some (demo_cfg 2)) (demo4_world 1) =
       Some (InitOk (next_ptr (demo4_world 1)), w')"
    by (auto simp: demo4_find demo4_dev_fields demo_cfg_fields demo_init_env_fields rb)
  have wf: "nat (rings_cnt ((demo4_dev 1)\<lparr>ref := 1 + 1\<rparr>)) \<le> length (rings ((demo4_dev 1)\<lparr>ref := 1 + 1\<rparr>))"
    by (simp add: demo4_dev_fields)
  have pos2: "0 < threads (demo_cfg 2)" and pos5: "0 < threads (demo_cfg 5)"
    by (simp_all add: demo_cfg_fields)
  note two = thread_init_computes_ring_range
      [OF demo_init_env_fields(1) demo4_live demo4_src_open demo4_src_dev wf pos2, of 30]
  note five = thread_init_computes_ring_range
      [OF demo_init_env_fields(1) demo4_live demo4_src_open demo4_src_dev wf pos5, of 30]
  have a: "thread_range (ReceiveNetmapThreadInit demo_init_env 30 (Some (demo_cfg 2)) (demo4_world 1)) =
             Some (1, 2, 3)"
    using two ok by (auto simp add: demo_cfg_fields demo4_dev_fields)
  have b: "init_outcome (ReceiveNetmapThreadInit demo_init_env 30 (Some (demo_cfg 5)) (demo4_world 1)) =
             Some (InitFailed TooManyThreads)"
    using five by (auto simp add: demo_cfg_fields demo4_dev_fields)
  from a b show ?thesis by simp
qed


section \<open>Device registry: proofs\<close>


lemma open_rings_registry [simp]:
  "netmap_devlist (snd (snd (open_rings env i n sc d w))) = netmap_devlist w"
  by (induction n arbitrary: i sc d w)
     (simp_all add: sys_open_def sys_mmap_def Let_def split: prod.splits)

lemma open_rings_ref [simp]:
  "ref (fst (snd (open_rings env i n sc d w))) = ref d"
  by (induction n arbitrary: i sc d w)
     (simp_all add: sys_open_def sys_mmap_def Let_def set_ring_fd_def set_ring_views_def
        split: prod.splits)

lemma NetmapOpen_failure_registry:
  assumes "NetmapOpen env name pr w = Some ((rc, h), w')" and "rc \<noteq> 0"
  shows "h = None \<and> netmap_devlist w' = netmap_devlist w"
proof -
  have r: "netmap_devlist w4 = netmap_devlist w0"
    if "open_rings env i n sc d w0 = (x, d2, w4)" for i n sc d w0 x d2 w4
    using open_rings_registry [of env i n sc d w0] that by simp
  show ?thesis
    using assms
    by (auto simp: NetmapOpen_def NetmapOpen_new_def Let_def error_pdev_def error_fd_def
          error_mem_def sys_open_def sys_close_def SCFree_dev_def
          split: option.splits if_splits prod.splits ring_loop_exit.splits dest: r)
qed

lemma NetmapOpen_new_device_ref:
  assumes "NetmapOpen_new env name pr w = ((0, Some h), w')"
  shows "map_option ref (devs w' h) = Some 0"
proof -
  have r: "ref d2 = ref d"
    if "open_rings env i n sc d w0 = (x, d2, w4)" for i n sc d w0 x d2 w4
    using open_rings_ref [of env i n sc d w0] that by simp
  show ?thesis
    using assms
    by (auto simp: NetmapOpen_new_def Let_def error_pdev_def error_fd_def
          error_mem_def sys_open_def sys_close_def SCFree_dev_def
          split: option.splits if_splits prod.splits ring_loop_exit.splits dest!: r)
qed

lemma NetmapClose_shared:
  assumes "dev \<in> set (netmap_devlist w)" and "devs w dev = Some d" and "ref d \<noteq> 1"
  shows "NetmapClose dev w = Some (0, w\<lparr>devs := (devs w)(dev \<mapsto> d\<lparr>ref := ref d - 1\<rparr>)\<rparr>)"
  using assms by (simp add: NetmapClose_def)

lemma NetmapClose_last:
  assumes "dev \<in> set (netmap_devlist w)" and "devs w dev = Some d" and "ref d = 1"
    and "nat (rings_cnt d) \<le> length (rings d)"
  shows "\<exists>w'. NetmapClose dev w = Some (0, w') \<and> dev \<notin> set (netmap_devlist w') \<and>
           devs w' dev = None \<and>
           (\<forall>m. mem d = Some m \<longrightarrow> m \<notin> set (mapped w'))"
  using assms
  by (auto simp: NetmapClose_def Let_def SCFree_dev_def sys_munmap_def split: option.splits)

lemma NetmapClose_not_registered:
  assumes "dev \<notin> set (netmap_devlist w)"
  shows "NetmapClose dev w = Some (- 1, w)"
  using assms by (simp add: NetmapClose_def)

text \<open>
  Claim C8 asks that an open in which a per-ring open, register or mmap step fails closes
  every ring handle it opened, unmaps what it mapped and registers nothing.  The code falls
  short of it.  On the four-ring interface: when \<open>NIOCREGIF\<close> fails for ring 1, the
  descriptor 6 opened for ring 1 stays open; when \<open>mmap\<close> fails, the descriptor 5 opened
  for ring 0 stays open; only when the per-ring \<open>open\<close> itself fails is everything
  handed back (descriptors 0, 1, 2 were open before).  In all three cases the open
  returns -1 and registers nothing.
\<close>

theorem ring_register_failure_leaks_descriptor:
  "open_outcome (NetmapOpen demo_regif_fails_env ''eth0'' True empty_world) =
     Some ((- 1, None), [], [0, 1, 2, 6], []) \<and>
   open_outcome (NetmapOpen demo_mmap_fails_env ''eth0'' True empty_world) =
     Some ((- 1, None), [], [0, 1, 2, 5], []) \<and>
   open_outcome (NetmapOpen demo_ring_open_fails_env ''eth0'' True empty_world) =
     Some ((- 1, None), [], [0, 1, 2], [])"
  by (simp add: registry_eval open_outcome_def demo_regif_fails_env_def demo_mmap_fails_env_def
        demo_ring_open_fails_env_def demo_open_env_def empty_world_def)

text \<open>
  Claim C7 expects that after acquiring "eth0" twice and releasing once the device is
  still registered with refcount 1.  The code creates the device with \<open>ref = 0\<close>, the
  second open makes it 1, and the first release brings it to 0 and removes the device: the
  registry is empty after the first release, and the second release already returns -1.
\<close>

theorem first_release_of_two_removes_device:
  "refcount_scenario demo_open_env ''eth0'' empty_world =
     Some ((0, Some 1000), Some 0, (0, Some 1000), Some 1, 0, [], - 1)"
  by (simp add: registry_eval refcount_scenario_def device_ref_def NetmapClose_def
        demo_open_env_def empty_world_def)


section \<open>Ring drain: proofs\<close>


lemma get_rx_frame2 [simp]:
  "get_rx (w\<lparr>livedevs := x\<rparr>) d i = get_rx w d i"
  "get_rx (w\<lparr>stats := y\<rparr>) d i = get_rx w d i"
  by (simp_all add: get_rx_def)

lemma same_rx_cursors_refl [simp]: "same_rx_cursors w w"
  by (simp add: same_rx_cursors_def)

lemma same_rx_cursors_trans:
  "same_rx_cursors w w1 \<Longrightarrow> same_rx_cursors w1 w2 \<Longrightarrow> same_rx_cursors w w2"
  by (simp add: same_rx_cursors_def)

lemma same_rx_cursors_frame [simp]:
  "same_rx_cursors w (w'\<lparr>pool := x\<rparr>) = same_rx_cursors w w'"
  "same_rx_cursors w (w'\<lparr>ntvs := y\<rparr>) = same_rx_cursors w w'"
  "same_rx_cursors w (w'\<lparr>livedevs := z\<rparr>) = same_rx_cursors w w'"
  by (simp_all add: same_rx_cursors_def)

lemma same_rx_cursors_write_tx [simp]:
  "same_rx_cursors w (write_tx d i f w') = same_rx_cursors w w'"
  by (simp add: same_rx_cursors_def)

lemma same_rx_cursors_write_rx:
  assumes "\<And>r. ring_cursors (f r) = ring_cursors r"
  shows "same_rx_cursors w (write_rx d i f w') = same_rx_cursors w w'"
proof -
  have "map_option ring_cursors (get_rx (write_rx d i f w') d' j) =
        map_option ring_cursors (get_rx w' d' j)" for d' j
    using assms by (cases "get_rx w' d i") (auto simp: get_rx_write_rx)
  then show ?thesis by (simp add: same_rx_cursors_def)
qed

lemma NetmapWritePacket_cursors:
  assumes "NetmapWritePacket t p w = Some (rc, w')"
  shows "same_rx_cursors w w'"
  using assms
  by (auto simp: NetmapWritePacket_def Let_def same_rx_cursors_write_rx ring_cursors_def
        split: option.splits if_splits)

lemma NetmapReleasePacket_cursors:
  assumes "NetmapReleasePacket p w = Some w'"
  shows "same_rx_cursors w w'"
  using assms
  by (auto simp: NetmapReleasePacket_def PacketFreeOrRelease_def
        split: option.splits if_splits dest: NetmapWritePacket_cursors)

lemma TmqhOutputPacketpool_cursors:
  assumes "TmqhOutputPacketpool p w = Some w'"
  shows "same_rx_cursors w w'"
  using assms
  by (auto simp: TmqhOutputPacketpool_def PacketFreeOrRelease_def
        split: release_hook.splits dest: NetmapReleasePacket_cursors)

lemma TmThreadsSlotProcessPkt_cursors:
  assumes "TmThreadsSlotProcessPkt e p w = Some (rc, p', w')"
  shows "same_rx_cursors w w'"
  using assms
  by (auto simp: TmThreadsSlotProcessPkt_def Let_def
        split: option.splits if_splits dest: TmqhOutputPacketpool_cursors)

lemma checksum_policy_cursors:
  assumes "checksum_policy e ntv w = Some (ign, w')"
  shows "same_rx_cursors w w'"
  using assms
  by (auto simp: checksum_policy_def split: ChecksumValidationMode.splits option.splits if_splits)

lemma bind_and_deliver_cursors:
  assumes "bind_and_deliver e t ring_id c ntv p0 w = Some (x, w')"
  shows "same_rx_cursors w w'"
proof (cases "data_ok e")
  case False
  with assms show ?thesis
    by (auto simp: bind_and_deliver_def split: option.splits dest: TmqhOutputPacketpool_cursors)
next
  case True
  define p1 where "p1 = (if ntv_flags ntv AND NETMAP_FLAG_ZERO_COPY \<noteq> 0
                  then p0\<lparr>ReleasePacket := NetmapReleasePacket_hook,
                          netmap_v_ring_id := ring_id,
                          netmap_v_slot_id := uint c,
                          netmap_v_ntv := t\<rparr>
                  else p0)"
  from assms True obtain rc p2 w1 where
    ds: "TmThreadsSlotProcessPkt e p1 w = Some (rc, p2, w1)"
    and rest: "(if rc \<noteq> TM_ECODE_OK
                then (case TmqhOutputPacketpool p2 w1 of None \<Rightarrow> None
                      | Some w'' \<Rightarrow> Some (ReturnFailure, w''))
                else Some (Continue, w1)) = Some (x, w')"
    by (auto simp: bind_and_deliver_def Let_def p1_def split: option.splits)
  have a: "same_rx_cursors w w1" by (rule TmThreadsSlotProcessPkt_cursors [OF ds])
  have b: "same_rx_cursors w1 w'"
    using rest by (auto split: if_splits option.splits dest: TmqhOutputPacketpool_cursors)
  from a b show ?thesis by (rule same_rx_cursors_trans)
qed

lemma ring_read_slot_cursors:
  assumes "ring_read_slot e t ring_id c w = Some (x, w')"
  shows "same_rx_cursors w w'"
proof -
  from assms obtain ntv sp ring s where
    ntv: "ntvs w t = Some ntv" and "ifsrc ntv = Some sp" and "get_rx w sp ring_id = Some ring"
    and "get_slot ring (uint c) = Some s"
    by (auto simp: ring_read_slot_def split: option.splits)
  note look = this
  show ?thesis
  proof (cases "(bpf_len ntv \<noteq> 0 \<and> \<not> bpf_match e) \<or> \<not> pool_has_packet e")
    case True
    with assms look show ?thesis by (auto simp: ring_read_slot_def split: if_splits)
  next
    case False
    let ?w1 = "w\<lparr>ntvs := (ntvs w)(t \<mapsto> ntv\<lparr>pkts := pkts ntv + 1, bytes := bytes ntv + ucast (len s)\<rparr>)\<rparr>"
    from assms look False obtain ign w2 where
      cp: "checksum_policy e ntv ?w1 = Some (ign, w2)"
      and bd: "bind_and_deliver e t ring_id c ntv (fresh_packet\<lparr>ignore_checksum_flag := ign\<rparr>) w2 = Some (x, w')"
      by (auto simp: ring_read_slot_def Let_def split: option.splits)
    have "same_rx_cursors w ?w1" by simp
    moreover have "same_rx_cursors ?w1 w2" by (rule checksum_policy_cursors [OF cp])
    moreover have "same_rx_cursors w2 w'" by (rule bind_and_deliver_cursors [OF bd])
    ultimately show ?thesis by (blast intro: same_rx_cursors_trans)
  qed
qed


lemma nm_ring_next_cong:
  "ring_cursors r' = ring_cursors r \<Longrightarrow> nm_ring_next r' = nm_ring_next r"
  by (auto simp: ring_cursors_def nm_ring_next_def fun_eq_iff)

lemma same_rx_cursorsD:
  "same_rx_cursors w w' \<Longrightarrow> get_rx w d i = Some r \<Longrightarrow>
     \<exists>r'. get_rx w' d i = Some r' \<and> ring_cursors r' = ring_cursors r"
  by (auto simp: same_rx_cursors_def dest!: spec [where x = d] spec [where x = i])

lemma ring_read_loop_cursors:
  assumes "ring_read_loop env t sp ring_id avail c w = Some ((rc, c'), w')"
    and "get_rx w sp ring_id = Some ring"
  shows "same_rx_cursors w w' \<and> (rc = NETMAP_OK \<longrightarrow> c' = (nm_ring_next ring ^^ avail) c)"
  using assms
proof (induction avail arbitrary: env c w ring)
  case 0
  then show ?case by simp
next
  case (Suc avail)
  from Suc.prems(1) obtain x w1 where
    slot: "ring_read_slot (env 0) t ring_id c w = Some (x, w1)"
    by (auto split: option.splits)
  have c1: "same_rx_cursors w w1" by (rule ring_read_slot_cursors [OF slot])
  show ?case
  proof (cases x)
    case ReturnFailure
    with Suc.prems(1) slot c1 show ?thesis by auto
  next
    case Continue
    from same_rx_cursorsD [OF c1 Suc.prems(2)] obtain ring1 where
      r1: "get_rx w1 sp ring_id = Some ring1" and cur1: "ring_cursors ring1 = ring_cursors ring"
      by blast
    from Suc.prems(1) slot Continue r1 have
      loop: "ring_read_loop (\<lambda>k. env (Suc k)) t sp ring_id avail (nm_ring_next ring1 c) w1 =
               Some ((rc, c'), w')"
      by simp
    from Suc.IH [OF loop r1] have
      c2: "same_rx_cursors w1 w'"
      and nxt: "rc = NETMAP_OK \<longrightarrow> c' = (nm_ring_next ring1 ^^ avail) (nm_ring_next ring1 c)"
      by simp_all
    have "same_rx_cursors w w'" using c1 c2 by (rule same_rx_cursors_trans)
    moreover have "rc = NETMAP_OK \<longrightarrow> c' = (nm_ring_next ring ^^ Suc avail) c"
      using nxt by (simp add: nm_ring_next_cong [OF cur1] funpow_swap1)
    ultimately show ?thesis by simp
  qed
qed

lemma drain_slots_cong:
  "ring_cursors r' = ring_cursors r \<Longrightarrow> drain_slots r' = drain_slots r"
  using nm_ring_next_cong [of r' r]
  by (simp add: drain_slots_def ring_cursors_def nm_ring_space_def Let_def)

lemma ring_read_slot_pool_empty:
  assumes "ntvs w t = Some ntv" and "ifsrc ntv = Some sp"
    and "get_rx w sp ring_id = Some ring" and "get_slot ring (uint c) = Some s"
    and "bpf_len ntv = 0 \<or> bpf_match e" and "\<not> pool_has_packet e"
  shows "ring_read_slot e t ring_id c w = Some (ReturnFailure, w)"
  using assms by (auto simp: ring_read_slot_def)

lemma bind_and_deliver_refused:
  assumes "bind_and_deliver e t ring_id c ntv p0 w = Some (x, w')"
    and "\<not> data_ok e \<or> \<not> ds_ok e"
  shows "x = ReturnFailure"
  using assms
  by (auto simp: bind_and_deliver_def TmThreadsSlotProcessPkt_def Let_def
        split: option.splits if_splits)

lemma ring_read_slot_refused:
  assumes "ring_read_slot e t ring_id c w = Some (x, w')"
    and "ntvs w t = Some ntv" and "bpf_len ntv = 0 \<or> bpf_match e"
    and "\<not> data_ok e \<or> \<not> ds_ok e"
  shows "x = ReturnFailure"
proof (cases "pool_has_packet e")
  case False
  with assms(1-3) show ?thesis
    by (auto simp: ring_read_slot_def split: option.splits if_splits)
next
  case True
  with assms(1-3) obtain ign w2 p0 where
    "bind_and_deliver e t ring_id c ntv p0 w2 = Some (x, w')"
    by (auto simp: ring_read_slot_def Let_def split: option.splits if_splits)
  then show ?thesis using assms(4) by (rule bind_and_deliver_refused)
qed

text \<open>
  Claim C9.  A drain that returns \<open>NETMAP_FAILURE\<close> (the packet pool gave no packet, the
  payload could not be bound, or the downstream stage refused the packet) leaves \<open>head\<close>
  and \<open>cur\<close> of the ring exactly as they were before the drain, whatever happened to the
  packets handed downstream before the abort: no slot has been released, \<open>nm_ring_space\<close>
  is unchanged and the next drain examines the same slots again.  Only a drain that
  returns \<open>NETMAP_OK\<close> commits \<open>head = cur\<close>, \<open>nm_ring_space\<close> slots further on.
\<close>

theorem aborted_drain_leaves_head_and_cur:
  assumes "NetmapRingRead env t ring_id w = Some (rc, w')"
    and "ntvs w t = Some ntv" and "ifsrc ntv = Some sp"
    and "get_rx w sp ring_id = Some ring"
  shows "\<exists>ring'. get_rx w' sp ring_id = Some ring' \<and>
           num_slots ring' = num_slots ring \<and> tail ring' = tail ring \<and>
           (rc = NETMAP_FAILURE \<longrightarrow>
              head ring' = head ring \<and> cur ring' = cur ring \<and>
              nm_ring_space ring' = nm_ring_space ring \<and>
              drain_slots ring' = drain_slots ring) \<and>
           (rc = NETMAP_OK \<longrightarrow>
              head ring' = cur ring' \<and>
              cur ring' = (nm_ring_next ring ^^ unat (nm_ring_space ring)) (cur ring))"
proof -
  from assms obtain r c w1 where
    loop: "ring_read_loop env t sp ring_id (unat (nm_ring_space ring)) (cur ring) w = Some ((r, c), w1)"
    by (auto simp: NetmapRingRead_def split: option.splits)
  from ring_read_loop_cursors [OF loop assms(4)] have
    same: "same_rx_cursors w w1"
    and nxt: "r = NETMAP_OK \<longrightarrow> c = (nm_ring_next ring ^^ unat (nm_ring_space ring)) (cur ring)"
    by simp_all
  from same_rx_cursorsD [OF same assms(4)] obtain ring1 where
    r1: "get_rx w1 sp ring_id = Some ring1" and cur1: "ring_cursors ring1 = ring_cursors ring"
    by blast
  show ?thesis
  proof (cases r)
    case NETMAP_FAILURE
    with assms loop have "rc = NETMAP_FAILURE" and "w' = w1"
      by (auto simp: NetmapRingRead_def)
    with r1 cur1 drain_slots_cong [OF cur1] show ?thesis
      by (auto simp: ring_cursors_def nm_ring_space_def Let_def)
  next
    case NETMAP_OK
    with assms loop have "rc = NETMAP_OK"
      and "w' = write_rx sp ring_id (\<lambda>r. r\<lparr>head := c, cur := c\<rparr>) w1"
      by (auto simp: NetmapRingRead_def)
    with r1 cur1 nxt NETMAP_OK show ?thesis
      by (auto simp: ring_cursors_def get_rx_write_rx)
  qed
qed

subsection \<open>The concrete drain evaluated\<close>

lemmas drain_eval =
  NetmapRingRead_def ring_read_slot_def bind_and_deliver_def checksum_policy_def
  TmThreadsSlotProcessPkt_def TmqhOutputPacketpool_def NetmapReleasePacket_def
  NetmapWritePacket_def PacketFreeOrRelease_def fresh_packet_def
  get_rx_def get_tx_def get_ring_def get_slot_def write_rx_def write_tx_def
  nm_ring_space_def nm_ring_next_def c_rem_def NS_BUF_CHANGED_def NETMAP_FLAG_ZERO_COPY_def
  drain_world_def demo_world_def demo_dev_def demo_ring_def demo_ntv_def
  slot_passes_def pool_runs_dry_def downstream_refuses_def drain_view_def ring_cursors_def
  Let_def

lemmas ring_read_loop_numeral =
  ring_read_loop.simps(2) [where avail = "pred_numeral k" for k, unfolded numeral_eq_Suc [symmetric]]

lemma drain_pool_runs_dry:
  "drain_view (NetmapRingRead pool_runs_dry 10 2 (drain_world NETMAP_COPY_MODE_IPS)) =
     Some (NETMAP_FAILURE, Some (6, 4, 4, 0), 1)"
  by (simp add: drain_eval ring_read_loop_numeral)

lemma drain_downstream_refuses:
  "drain_view (NetmapRingRead downstream_refuses 10 2 (drain_world NETMAP_COPY_MODE_IPS)) =
     Some (NETMAP_FAILURE, Some (6, 4, 4, 0), 2)"
  by (simp add: drain_eval ring_read_loop_numeral)

lemma drain_completes:
  "drain_view (NetmapRingRead (\<lambda>k. slot_passes) 10 2 (drain_world NETMAP_COPY_MODE_IPS)) =
     Some (NETMAP_OK, Some (6, 0, 0, 0), 2)"
  by (simp add: drain_eval ring_read_loop_numeral)

lemma drain_world_ring:
  "ntvs (drain_world cm) 10 = Some (demo_ntv cm)"
  "get_rx (drain_world cm) 40 2 = Some ((demo_ring 24 5 0)\<lparr>head := 4, cur := 4\<rparr>)"
  by (simp_all add: drain_world_def get_rx_write_rx demo_get_rx demo_ntv_lookup)

lemma drain_world_space: "nm_ring_space ((demo_ring 24 5 0)\<lparr>head := 4, cur := 4\<rparr>) = 2"
  by (simp add: nm_ring_space_def demo_ring_def)

lemma drain_world_slots: "drain_slots ((demo_ring 24 5 0)\<lparr>head := 4, cur := 4\<rparr>) = [4, 5]"
proof -
  have up: "[0..<2] = [0, Suc 0]"
    by (simp add: upt_conv_Cons)
  have nx: "nm_ring_next ((demo_ring 24 5 0)\<lparr>head := 4, cur := 4\<rparr>) 4 = 5"
    by (simp add: nm_ring_next_def demo_ring_def)
  have cu: "cur ((demo_ring 24 5 0)\<lparr>head := 4, cur := 4\<rparr>) = 4"
    by simp
  show ?thesis
    unfolding drain_slots_def drain_world_space by (simp add: up nx cu del: upt_Suc)
qed

lemma drain_world_fields:
  "head ((demo_ring 24 5 0)\<lparr>head := 4, cur := 4\<rparr>) = 4"
  "cur ((demo_ring 24 5 0)\<lparr>head := 4, cur := 4\<rparr>) = 4"
  "tail ((demo_ring 24 5 0)\<lparr>head := 4, cur := 4\<rparr>) = 0"
  by (simp_all add: demo_ring_def)

theorem aborted_drain_leaves_head_and_cur_witness:
  "(\<exists>w' ring'.
      NetmapRingRead pool_runs_dry 10 2 (drain_world NETMAP_COPY_MODE_IPS) = Some (NETMAP_FAILURE, w') \<and>
      length (pool w') = 1 \<and>
      get_rx w' 40 2 = Some ring' \<and> head ring' = 4 \<and> cur ring' = 4 \<and> tail ring' = 0 \<and>
      nm_ring_space ring' = 2 \<and> drain_slots ring' = [4, 5]) \<and>
   (\<exists>w' ring'.
      NetmapRingRead downstream_refuses 10 2 (drain_world NETMAP_COPY_MODE_IPS) = Some (NETMAP_FAILURE, w') \<and>
      length (pool w') = 2 \<and>
      get_rx w' 40 2 = Some ring' \<and> head ring' = 4 \<and> cur ring' = 4 \<and> tail ring' = 0 \<and>
      nm_ring_space ring' = 2 \<and> drain_slots ring' = [4, 5])"
proof -
  have src: "ifsrc (demo_ntv NETMAP_COPY_MODE_IPS) = Some 40"
    by (simp add: demo_ntv_fields)
  have aborted:
    "\<exists>w' ring'.
       NetmapRingRead env 10 2 (drain_world NETMAP_COPY_MODE_IPS) = Some (NETMAP_FAILURE, w') \<and>
       length (pool w') = n \<and>
       get_rx w' 40 2 = Some ring' \<and> head ring' = 4 \<and> cur ring' = 4 \<and> tail ring' = 0 \<and>
       nm_ring_space ring' = 2 \<and> drain_slots ring' = [4, 5]"
    if view: "drain_view (NetmapRingRead env 10 2 (drain_world NETMAP_COPY_MODE_IPS)) =
                Some (NETMAP_FAILURE, Some (6, 4, 4, 0), n)" for env n
  proof -
    from view obtain w' where
      run: "NetmapRingRead env 10 2 (drain_world NETMAP_COPY_MODE_IPS) = Some (NETMAP_FAILURE, w')"
      and released: "length (pool w') = n"
      by (auto simp: drain_view_def split: option.splits)
    from aborted_drain_leaves_head_and_cur [OF run drain_world_ring(1) src drain_world_ring(2)]
    obtain ring' where "get_rx w' 40 2 = Some ring'"
      and "head ring' = 4" and "cur ring' = 4" and "tail ring' = 0"
      and "nm_ring_space ring' = 2" and "drain_slots ring' = [4, 5]"
      unfolding drain_world_slots drain_world_space drain_world_fields by blast
    with run released show ?thesis by blast
  qed
  from aborted [OF drain_pool_runs_dry] aborted [OF drain_downstream_refuses]
  show ?thesis by blast
qed


section \<open>Counter flush: proofs\<close>

text \<open>Neither the release hook nor the downstream stage touches \<open>bytes\<close> or a shared
  counter; one iteration of the drain at most adds the slot's \<open>len\<close> to \<open>bytes\<close>.\<close>


lemma published_frame [simp]:
  "published (w\<lparr>pool := x\<rparr>) = published w"
  "published (w\<lparr>ntvs := y\<rparr>) = published w"
  "published (write_tx d i f w) = published w"
  "published (write_rx d i f w) = published w"
  by (simp_all add: published_def)

lemma thread_bytes_frame [simp]:
  "thread_bytes (w\<lparr>pool := x\<rparr>) = thread_bytes w"
  "thread_bytes (w\<lparr>livedevs := z\<rparr>) = thread_bytes w"
  "thread_bytes (write_tx d i f w) = thread_bytes w"
  "thread_bytes (write_rx d i f w) = thread_bytes w"
  by (simp_all add: thread_bytes_def fun_eq_iff)




















end
